theory Spec2Isabelle
  imports Complex_Main "HOL-Library.Word" "HOL-Library.AList" "HOL-Library.Char_ord" "HOL-Library.List_Lexorder"
begin


section \<open>Binance volume alert: the volume fetcher\<close>

text \<open>
  The repository holds three versions of one program: a console loop
  (\<^verbatim>\<open>src/unnamed/part_001\<close>), a Telegram bot with one global monitoring flag
  (\<^verbatim>\<open>src/main.go\<close>) and a Telegram bot with one flag per chat, persisted in a file
  (\<^verbatim>\<open>src/unnamed/part_000\<close>). The functions \<^verbatim>\<open>getMarketCapRank\<close> and
  \<^verbatim>\<open>getBinanceVolume\<close> are the same text in all three.
\<close>

subsection \<open>Go's float64\<close>

text \<open>
  A \<^verbatim>\<open>float64\<close> is an IEEE 754 binary64 value: a finite number (carried here by its
  exact value, \<open>Num 0\<close> being \<open>+0\<close>), the negative zero, an infinity or a NaN.
  Only the operations that \<^verbatim>\<open>getBinanceVolume\<close> and the monitoring loops use are
  defined: \<^verbatim>\<open>==\<close>, \<^verbatim>\<open>>\<close> and \<^verbatim>\<open>/\<close>.
\<close>

datatype float64 = Num real | NegZero | PosInf | NegInf | NaN

definition is_nan :: "float64 \<Rightarrow> bool" where
  "is_nan x = (x = NaN)"

definition is_inf :: "float64 \<Rightarrow> bool" where
  "is_inf x = (x = PosInf \<or> x = NegInf)"

definition is_zero :: "float64 \<Rightarrow> bool" where
  "is_zero x = (x = Num 0 \<or> x = NegZero)"

fun signbit :: "float64 \<Rightarrow> bool" where
  "signbit (Num q) = (q < 0)"
| "signbit NegZero = True"
| "signbit PosInf = False"
| "signbit NegInf = True"
| "signbit NaN = False"

fun mag :: "float64 \<Rightarrow> real" where
  "mag (Num q) = q"
| "mag _ = 0"

definition signed_zero :: "bool \<Rightarrow> float64" where
  "signed_zero neg = (if neg then NegZero else Num 0)"

definition signed_inf :: "bool \<Rightarrow> float64" where
  "signed_inf neg = (if neg then NegInf else PosInf)"

text \<open>Go's \<^verbatim>\<open>x == y\<close>: a NaN equals nothing, the two zeros are equal.\<close>

definition feq :: "float64 \<Rightarrow> float64 \<Rightarrow> bool" where
  "feq x y = (\<not> is_nan x \<and> \<not> is_nan y \<and> (x = y \<or> (is_zero x \<and> is_zero y)))"

text \<open>Go's \<^verbatim>\<open>x > y\<close>: false as soon as one side is a NaN.\<close>

definition fgt :: "float64 \<Rightarrow> float64 \<Rightarrow> bool" where
  "fgt x y =
     (if is_nan x \<or> is_nan y then False
      else if x = PosInf then y \<noteq> PosInf
      else if x = NegInf then False
      else if y = PosInf then False
      else if y = NegInf then True
      else mag y < mag x)"

text \<open>Rounding an exact value to the nearest binary64, ties to even.\<close>

fun bitlen :: "nat \<Rightarrow> nat" where
  "bitlen n = (if n = 0 then 0 else Suc (bitlen (n div 2)))"

declare bitlen.simps [simp del]

definition pow2 :: "int \<Rightarrow> real" where
  "pow2 k = (if 0 \<le> k then 2 ^ nat k else 1 / 2 ^ nat (- k))"

text \<open>For \<open>0 < a\<close>, the integer \<open>e\<close> with \<open>2 ^ e \<le> a < 2 ^ (e + 1)\<close>.\<close>

definition floor_log2 :: "real \<Rightarrow> int" where
  "floor_log2 a =
     (if 1 \<le> a then int (bitlen (nat \<lfloor>a\<rfloor>)) - 1
      else (let k = int (bitlen (nat \<lfloor>1 / a\<rfloor>))
            in if pow2 (1 - k) \<le> a then 1 - k else - k))"

text \<open>The integer nearest to \<open>x\<close>, a tie going to the even one.\<close>

definition round_half_even :: "real \<Rightarrow> int" where
  "round_half_even x =
     (let f = \<lfloor>x\<rfloor>; r = x - of_int f
      in if r < 1 / 2 then f else if 1 / 2 < r then f + 1
         else if even f then f else f + 1)"

definition round64 :: "real \<Rightarrow> float64" where
  "round64 q =
     (if q = 0 then Num 0
      else if pow2 1024 \<le> \<bar>q\<bar> then signed_inf (q < 0)
      else
        let a = \<bar>q\<bar>;
            e = max (floor_log2 a) (- 1022);
            ulp = pow2 (e - 52);
            n = round_half_even (a / ulp)
        in if n = 2 ^ 53 \<and> e = 1023 then signed_inf (q < 0)
           else if n = 0 then signed_zero (q < 0)
           else Num (if q < 0 then - (of_int n * ulp) else of_int n * ulp))"

text \<open>Go's \<^verbatim>\<open>x / y\<close> on float64: it never panics.\<close>

definition fdiv :: "float64 \<Rightarrow> float64 \<Rightarrow> float64" where
  "fdiv x y =
     (let neg = (signbit x \<noteq> signbit y) in
      if is_nan x \<or> is_nan y then NaN
      else if is_inf x then (if is_inf y then NaN else signed_inf neg)
      else if is_inf y then signed_zero neg
      else if is_zero y then (if is_zero x then NaN else signed_inf neg)
      else if is_zero x then signed_zero neg
      else round64 (mag x / mag y))"

subsection \<open>strconv.ParseFloat\<close>

text \<open>
  \<^verbatim>\<open>strconv.ParseFloat(s, 64)\<close> returns a value and an error. On a syntax error the
  value is 0; on a number too large for a float64 the value is an infinity and the error
  is \<^verbatim>\<open>ErrRange\<close>. \<^verbatim>\<open>getBinanceVolume\<close> drops the error and keeps the value.

  The function is Go's library, not this repository: \<open>getBinanceVolume\<close> below takes the
  parser as its first argument \<open>pf\<close>, and the theorems on it are stated for every
  parser; what a theorem needs of the library is a hypothesis on \<open>pf\<close> at the string
  concerned. \<open>ParseFloat\<close> is a model of the library function for the examples. It
  reads what \<^verbatim>\<open>strconv\<close> reads:
  \<^item> \<^verbatim>\<open>inf\<close>, \<^verbatim>\<open>infinity\<close> with an optional sign and \<^verbatim>\<open>nan\<close> without one, in
    any case of the letters;
  \<^item> the decimal form: sign, digits with at most one point, and an optional exponent
    \<^verbatim>\<open>e\<close> with a sign and at least one digit;
  \<^item> the hexadecimal form: sign, \<^verbatim>\<open>0x\<close>, hexadecimal digits with at most one point,
    and the exponent \<^verbatim>\<open>p\<close>, which is required: a power of two, written in decimal;
  \<^item> underscores, where \<^verbatim>\<open>underscoreOK\<close> allows them: between two digits, or between
    the base prefix and a digit.

  The value is rounded to the nearest float64, ties to even.
\<close>

datatype parse_error = ErrSyntax | ErrRange

type_synonym parser = "string \<Rightarrow> float64 \<times> parse_error option"

definition is_digit :: "char \<Rightarrow> bool" where
  "is_digit c = (48 \<le> (of_char c :: nat) \<and> (of_char c :: nat) \<le> 57)"

definition digit_val :: "char \<Rightarrow> nat" where
  "digit_val c = of_char c - 48"

definition digits_val :: "string \<Rightarrow> nat" where
  "digits_val ds = foldl (\<lambda>acc c. 10 * acc + digit_val c) 0 ds"

definition is_hex_digit :: "char \<Rightarrow> bool" where
  "is_hex_digit c = (is_digit c \<or> c \<in> set ''abcdefABCDEF'')"

definition hex_digit_val :: "char \<Rightarrow> nat" where
  "hex_digit_val c =
     (case map_of (zip ''abcdefABCDEF'' [10, 11, 12, 13, 14, 15, 10, 11, 12, 13, 14, 15]) c of
        Some d \<Rightarrow> d
      | None \<Rightarrow> digit_val c)"

definition hex_digits_val :: "string \<Rightarrow> nat" where
  "hex_digits_val ds = foldl (\<lambda>acc c. 16 * acc + hex_digit_val c) 0 ds"

definition lower :: "char \<Rightarrow> char" where
  "lower c =
     (case map_of (zip ''ABCDEFGHIJKLMNOPQRSTUVWXYZ'' ''abcdefghijklmnopqrstuvwxyz'') c of
        Some d \<Rightarrow> d
      | None \<Rightarrow> c)"

definition split_sign :: "string \<Rightarrow> bool \<times> string" where
  "split_sign s =
     (case s of
        [] \<Rightarrow> (False, [])
      | c # r \<Rightarrow> if c = CHR ''-'' then (True, r)
                 else if c = CHR ''+'' then (False, r) else (False, s))"

text \<open>
  \<^verbatim>\<open>underscoreOK\<close>: after the sign and the base prefix (\<^verbatim>\<open>0b\<close>, \<^verbatim>\<open>0o\<close> or \<^verbatim>\<open>0x\<close>),
  an underscore must follow a digit or the prefix and be followed by a digit. \<open>saw\<close>
  is the kind of the last character: \<^verbatim>\<open>0\<close> for a digit, \<^verbatim>\<open>_\<close> for an underscore,
  \<^verbatim>\<open>!\<close> for another character, \<^verbatim>\<open>^\<close> at the beginning.
\<close>

fun underscore_scan :: "bool \<Rightarrow> char \<Rightarrow> string \<Rightarrow> bool" where
  "underscore_scan hex saw [] = (saw \<noteq> CHR ''_'')"
| "underscore_scan hex saw (c # s) =
     (if is_digit c \<or> (hex \<and> is_hex_digit c) then underscore_scan hex (CHR ''0'') s
      else if c = CHR ''_'' then (saw = CHR ''0'' \<and> underscore_scan hex (CHR ''_'') s)
      else if saw = CHR ''_'' then False
      else underscore_scan hex (CHR ''!'') s)"

definition underscoreOK :: "string \<Rightarrow> bool" where
  "underscoreOK s =
     (let r = snd (split_sign s) in
      case r of
        c0 # c1 # t \<Rightarrow>
          if c0 = CHR ''0'' \<and> lower c1 \<in> set ''box''
          then underscore_scan (lower c1 = CHR ''x'') (CHR ''0'') t
          else underscore_scan False (CHR ''^'') r
      | _ \<Rightarrow> underscore_scan False (CHR ''^'') r)"

text \<open>
  \<^verbatim>\<open>readFloat\<close> on a string without sign and underscores. The digits before and
  after the point, and what follows them.
\<close>

definition read_mantissa :: "(char \<Rightarrow> bool) \<Rightarrow> string \<Rightarrow> string \<times> string \<times> string" where
  "read_mantissa is_dig s =
     (let ip = takeWhile is_dig s; r1 = dropWhile is_dig s in
      case r1 of
        [] \<Rightarrow> (ip, [], [])
      | c # t \<Rightarrow> if c = CHR ''.'' then (ip, takeWhile is_dig t, dropWhile is_dig t)
                 else (ip, [], r1))"

text \<open>
  The exponent after its letter: an optional sign and at least one decimal digit, up to
  the end of the string. \<^verbatim>\<open>readFloat\<close> stops adding digits to the exponent once it has
  reached 10000.
\<close>

definition exponent_val :: "string \<Rightarrow> nat" where
  "exponent_val ds = foldl (\<lambda>e c. if e < 10000 then 10 * e + digit_val c else e) 0 ds"

definition read_exponent :: "string \<Rightarrow> int option" where
  "read_exponent t =
     (let (eneg, u) = split_sign t in
      if u \<noteq> [] \<and> list_all is_digit u
      then Some (if eneg then - int (exponent_val u) else int (exponent_val u))
      else None)"

text \<open>The mantissa digits as a natural number and the decimal exponent.\<close>

definition read_decimal :: "string \<Rightarrow> (nat \<times> int) option" where
  "read_decimal s =
     (let (ip, fp, r2) = read_mantissa is_digit s in
      if ip = [] \<and> fp = [] then None
      else (case r2 of
              [] \<Rightarrow> Some (digits_val (ip @ fp), - int (length fp))
            | c # t \<Rightarrow>
                if c = CHR ''e'' \<or> c = CHR ''E'' then
                  (case read_exponent t of
                     None \<Rightarrow> None
                   | Some e \<Rightarrow> Some (digits_val (ip @ fp), e - int (length fp)))
                else None))"

text \<open>
  The hexadecimal mantissa digits as a natural number and the binary exponent, for the
  string after \<^verbatim>\<open>0x\<close>.
\<close>

definition read_hex :: "string \<Rightarrow> (nat \<times> int) option" where
  "read_hex s =
     (let (ip, fp, r2) = read_mantissa is_hex_digit s in
      if ip = [] \<and> fp = [] then None
      else (case r2 of
              [] \<Rightarrow> None
            | c # t \<Rightarrow>
                if c = CHR ''p'' \<or> c = CHR ''P'' then
                  (case read_exponent t of
                     None \<Rightarrow> None
                   | Some e \<Rightarrow> Some (hex_digits_val (ip @ fp), e - 4 * int (length fp)))
                else None))"

definition pow10 :: "int \<Rightarrow> real" where
  "pow10 k = (if 0 \<le> k then 10 ^ nat k else 1 / 10 ^ nat (- k))"

definition hex_prefix :: "string \<Rightarrow> bool" where
  "hex_prefix r =
     (case r of
        c0 # c1 # t \<Rightarrow> c0 = CHR ''0'' \<and> (c1 = CHR ''x'' \<or> c1 = CHR ''X'')
      | _ \<Rightarrow> False)"

text \<open>The mantissa and the power of ten or two that scales it.\<close>

definition readFloat :: "string \<Rightarrow> (nat \<times> real) option" where
  "readFloat r =
     (if hex_prefix r
      then map_option (\<lambda>(m, e). (m, pow2 e)) (read_hex (drop 2 r))
      else map_option (\<lambda>(m, e). (m, pow10 e)) (read_decimal r))"

definition ParseFloat :: parser where
  "ParseFloat s =
     (let (neg, r) = split_sign s; l = map lower r in
      if l = ''inf'' \<or> l = ''infinity'' then (signed_inf neg, None)
      else if map lower s = ''nan'' then (NaN, None)
      else if CHR ''_'' \<in> set s \<and> \<not> underscoreOK s then (Num 0, Some ErrSyntax)
      else (case readFloat (filter (\<lambda>c. c \<noteq> CHR ''_'') r) of
              None \<Rightarrow> (Num 0, Some ErrSyntax)
            | Some (m, scale) \<Rightarrow>
                if m = 0 then (signed_zero neg, None)
                else (let q = of_nat m * scale;
                          f = round64 (if neg then - q else q)
                      in if is_inf f then (f, Some ErrRange) else (f, None))))"

subsection \<open>The decoded response\<close>

text \<open>
  \<^verbatim>\<open>json.Unmarshal\<close> into \<^verbatim>\<open>[]BinanceKline\<close>, that is \<^verbatim>\<open>[][]interface{}\<close>: the
  document must be an array of arrays, where \<^verbatim>\<open>null\<close> stands for a nil slice at both
  levels; the elements of a record are arbitrary JSON values. Any other shape is an
  error of \<^verbatim>\<open>Unmarshal\<close>.
\<close>

datatype json =
    JNull
  | JBool bool
  | JNumber float64
  | JString string
  | JArray "json list"
  | JObject "(string \<times> json) list"

type_synonym BinanceKline = "json list"

fun unmarshal_kline :: "json \<Rightarrow> BinanceKline option" where
  "unmarshal_kline JNull = Some []"
| "unmarshal_kline (JArray xs) = Some xs"
| "unmarshal_kline _ = None"

fun sequence_opt :: "'a option list \<Rightarrow> 'a list option" where
  "sequence_opt [] = Some []"
| "sequence_opt (None # _) = None"
| "sequence_opt (Some x # xs) = map_option ((#) x) (sequence_opt xs)"

fun unmarshal_klines :: "json \<Rightarrow> BinanceKline list option" where
  "unmarshal_klines JNull = Some []"
| "unmarshal_klines (JArray ks) = sequence_opt (map unmarshal_kline ks)"
| "unmarshal_klines _ = None"

text \<open>
  What \<^verbatim>\<open>http.Get\<close> and \<^verbatim>\<open>ioutil.ReadAll\<close> give: a transport error, or a status
  code with a body that cannot be read, is not JSON, or is a JSON document.
\<close>

datatype body = ReadError | NotJson | Document json

datatype http_result = GetError | Response int body

subsection \<open>getBinanceVolume\<close>

record VolumeData =
  PrevVolume :: float64
  CurrVolume :: float64
  Ratio :: float64

datatype error =
    FailedGetKline
  | FailedReadBody
  | FailedUnmarshalKlines
  | InsufficientKlineData
  | FailedGetRank
  | FailedUnmarshalRank

text \<open>
  A Go call either panics or returns. \<^verbatim>\<open>getBinanceVolume\<close> returns the pair
  \<^verbatim>\<open>(*VolumeData, error)\<close>, each of which may be nil.
\<close>

datatype 'a go = Panics | Returns 'a

text \<open>
  \<^verbatim>\<open>k[5].(string)\<close>: the index panics on a record of fewer than six elements, the
  type assertion panics on an element that is not a string.
\<close>

definition volume_string :: "BinanceKline \<Rightarrow> string option" where
  "volume_string k =
     (if 5 < length k then (case k ! 5 of JString s \<Rightarrow> Some s | _ \<Rightarrow> None) else None)"

definition getBinanceVolume ::
  "parser \<Rightarrow> http_result \<Rightarrow> (VolumeData option \<times> error option) go" where
  "getBinanceVolume pf resp =
     (case resp of
        GetError \<Rightarrow> Returns (None, Some FailedGetKline)
      | Response status b \<Rightarrow>
          if status = 400 then Returns (None, None)
          else (case b of
                  ReadError \<Rightarrow> Returns (None, Some FailedReadBody)
                | NotJson \<Rightarrow> Returns (None, Some FailedUnmarshalKlines)
                | Document j \<Rightarrow>
                    (case unmarshal_klines j of
                       None \<Rightarrow> Returns (None, Some FailedUnmarshalKlines)
                     | Some klines \<Rightarrow>
                         if length klines < 2 then Returns (None, Some InsufficientKlineData)
                         else (case volume_string (klines ! 0) of
                                 None \<Rightarrow> Panics
                               | Some s0 \<Rightarrow>
                                   (case volume_string (klines ! 1) of
                                      None \<Rightarrow> Panics
                                    | Some s1 \<Rightarrow>
                                        (let prevVolume = fst (pf s0);
                                             currVolume = fst (pf s1)
                                         in if feq prevVolume (Num 0) then Returns (None, None)
                                            else Returns
                                              (Some \<lparr>PrevVolume = prevVolume,
                                                     CurrVolume = currVolume,
                                                     Ratio = fdiv currVolume prevVolume\<rparr>,
                                               None)))))))"

section \<open>The monitoring loops\<close>

text \<open>
  The three loops are the same text up to the way they poll for a stop:
  \<^item> \<open>Console\<close>: \<^verbatim>\<open>main\<close> of \<^verbatim>\<open>part_001\<close>, which never polls;
  \<^item> \<open>Global\<close>: \<^verbatim>\<open>startMonitoring\<close> of \<^verbatim>\<open>main.go\<close>, which reads the global
    \<^verbatim>\<open>monitoring\<close> in \<^verbatim>\<open>for monitoring\<close> and in \<^verbatim>\<open>if !monitoring { return }\<close>;
  \<^item> \<open>PerChat c\<close>: \<^verbatim>\<open>startMonitoring(chatID)\<close> of \<^verbatim>\<open>part_000\<close>, which evaluates
    \<^verbatim>\<open>monitoringStatus.Load(chatID)\<close> and asserts the result to be a \<^verbatim>\<open>bool\<close>; the
    assertion panics on the nil that \<^verbatim>\<open>Load\<close> gives for an absent key.

  A loop runs in its own goroutine while the command handler writes the flag, and it
  talks to the network. It is modelled by what it observes and what it does: the world
  gives the value of each observation, indexed by the number \<open>t\<close> of observations made
  so far, and the loop returns the list of its events. Nothing is assumed about the
  world, so every interleaving with the command handler is covered. The outer loop has
  no exit of its own: it is unrolled \<open>n\<close> times, and \<open>StillRunning\<close> says that it has
  not ended within these.
\<close>

type_synonym int64 = "64 word"

datatype variant = Console | Global | PerChat int64

text \<open>
  The events of a loop. \<open>Checkpoint b\<close> is a poll of the flag that read \<open>b\<close>, where
  \<open>None\<close> is the nil of an absent key. \<open>Alert\<close> is the call of \<^verbatim>\<open>sendAlert\<close>
  (\<^verbatim>\<open>alert\<close> in \<^verbatim>\<open>part_001\<close>) with the symbol and the sample; the text of the
  message and the outcome of sending it are left out. \<open>Sleep\<close> holds milliseconds.
  \<open>SetMonitoring\<close>, \<open>StoreStatus\<close>, \<open>SaveStatus\<close>, \<open>SendText\<close> and \<open>PrintText\<close>
  are what a version does before its loop.
\<close>

datatype event =
    Checkpoint "bool option"
  | CallMarketCapRank
  | LogRankError error
  | CallBinanceVolume string
  | LogVolumeError string error
  | Alert variant string VolumeData
  | Sleep nat
  | LogCheckCompleted
  | SetMonitoring bool
  | StoreStatus int64 bool
  | SaveStatus
  | SendText string
  | PrintText string

fun is_alert :: "event \<Rightarrow> bool" where
  "is_alert (Alert v symbol d) = True"
| "is_alert _ = False"

datatype outcome = Completed | Returned | Panicked | StillRunning

text \<open>
  The world: the value of the global flag and of the map of flags at each observation,
  what \<^verbatim>\<open>getMarketCapRank\<close> returns (its error, or the symbols), and what the
  request of \<^verbatim>\<open>getBinanceVolume\<close> for a symbol gets.
\<close>

record world =
  monitoring_at :: "nat \<Rightarrow> bool"
  status_at :: "nat \<Rightarrow> int64 \<Rightarrow> bool option"
  rank_at :: "nat \<Rightarrow> error + string list"
  kline_at :: "nat \<Rightarrow> string \<Rightarrow> http_result"

text \<open>
  One poll of the flag: the events, whether the loop goes on (\<open>Completed\<close>), returns or
  panics, and the number of observations afterwards.
\<close>

definition checkpoint :: "variant \<Rightarrow> world \<Rightarrow> nat \<Rightarrow> event list \<times> outcome \<times> nat" where
  "checkpoint v w t =
     (case v of
        Console \<Rightarrow> ([], Completed, t)
      | Global \<Rightarrow>
          ([Checkpoint (Some (monitoring_at w t))],
           if monitoring_at w t then Completed else Returned, Suc t)
      | PerChat c \<Rightarrow>
          (case status_at w t c of
             None \<Rightarrow> ([Checkpoint None], Panicked, Suc t)
           | Some b \<Rightarrow> ([Checkpoint (Some b)], if b then Completed else Returned, Suc t)))"

text \<open>
  The inner loop body after the call of \<^verbatim>\<open>getBinanceVolume\<close>: on an error, log and
  \<^verbatim>\<open>continue\<close>; otherwise alert when \<^verbatim>\<open>volumeData != nil && volumeData.Ratio > 5\<close>,
  then sleep 100 ms. Durations are in milliseconds.
\<close>

definition check_volume ::
  "variant \<Rightarrow> string \<Rightarrow> VolumeData option \<times> error option \<Rightarrow> event list" where
  "check_volume v symbol r =
     (case snd r of
        Some err \<Rightarrow> [LogVolumeError symbol err]
      | None \<Rightarrow>
          (case fst r of
             None \<Rightarrow> []
           | Some volumeData \<Rightarrow>
               if fgt (Ratio volumeData) (Num 5) then [Alert v symbol volumeData] else [])
          @ [Sleep 100])"

text \<open>One iteration of the inner loop, for one symbol.\<close>

definition check_symbol ::
  "variant \<Rightarrow> parser \<Rightarrow> world \<Rightarrow> string \<Rightarrow> nat \<Rightarrow> event list \<times> outcome \<times> nat" where
  "check_symbol v pf w symbol t =
     (case checkpoint v w t of
        (es, Completed, t1) \<Rightarrow>
          (case getBinanceVolume pf (kline_at w t1 symbol) of
             Panics \<Rightarrow> (es @ [CallBinanceVolume symbol], Panicked, Suc t1)
           | Returns r \<Rightarrow>
               (es @ CallBinanceVolume symbol # check_volume v symbol r, Completed, Suc t1))
      | stop \<Rightarrow> stop)"

text \<open>The inner loop \<^verbatim>\<open>for _, symbol := range symbols\<close>.\<close>

fun symbols_loop ::
  "variant \<Rightarrow> parser \<Rightarrow> world \<Rightarrow> string list \<Rightarrow> nat \<Rightarrow> event list \<times> outcome \<times> nat" where
  "symbols_loop v pf w [] t = ([], Completed, t)"
| "symbols_loop v pf w (symbol # symbols) t =
     (case check_symbol v pf w symbol t of
        (es, Completed, t1) \<Rightarrow>
          (case symbols_loop v pf w symbols t1 of (es', r) \<Rightarrow> (es @ es', r))
      | stop \<Rightarrow> stop)"

definition prepend :: "event list \<Rightarrow> event list \<times> 'a \<Rightarrow> event list \<times> 'a" where
  "prepend es r = (es @ fst r, snd r)"

text \<open>
  The outer loop, unrolled \<open>n\<close> times: poll, fetch the ranking; on an error log, sleep
  five minutes and \<^verbatim>\<open>continue\<close>; otherwise run the inner loop, log the end of the
  check and sleep five minutes.
\<close>

fun monitoring_loop ::
  "nat \<Rightarrow> variant \<Rightarrow> parser \<Rightarrow> world \<Rightarrow> nat \<Rightarrow> event list \<times> outcome" where
  "monitoring_loop 0 v pf w t = ([], StillRunning)"
| "monitoring_loop (Suc n) v pf w t =
     (case checkpoint v w t of
        (es, Completed, t1) \<Rightarrow>
          (case rank_at w t1 of
             Inl err \<Rightarrow>
               prepend (es @ [CallMarketCapRank, LogRankError err, Sleep 300000])
                 (monitoring_loop n v pf w (Suc t1))
           | Inr symbols \<Rightarrow>
               (case symbols_loop v pf w symbols (Suc t1) of
                  (es', Completed, t2) \<Rightarrow>
                    prepend (es @ CallMarketCapRank # es' @ [LogCheckCompleted, Sleep 300000])
                      (monitoring_loop n v pf w t2)
                | (es', stop, t2) \<Rightarrow> (es @ CallMarketCapRank # es', stop)))
      | (es, stop, t1) \<Rightarrow> (es, stop))"

text \<open>What each version does before it enters the loop.\<close>

definition prelude :: "variant \<Rightarrow> event list" where
  "prelude v =
     (case v of
        Console \<Rightarrow> [PrintText ''Starting volume monitor...'']
      | Global \<Rightarrow>
          [SetMonitoring True,
           SendText ''Volume monitoring started! You will receive alerts when volume increases more than 5x.'']
      | PerChat c \<Rightarrow>
          [StoreStatus c True, SaveStatus,
           SendText ''Volume monitoring started! You will receive alerts when volume increases more than 5x.''])"

definition startMonitoring ::
  "nat \<Rightarrow> variant \<Rightarrow> parser \<Rightarrow> world \<Rightarrow> event list \<times> outcome" where
  "startMonitoring n v pf w = prepend (prelude v) (monitoring_loop n v pf w 0)"

subsection \<open>Predicates on traces\<close>

fun is_call :: "event \<Rightarrow> bool" where
  "is_call (CallBinanceVolume symbol) = True"
| "is_call _ = False"

text \<open>
  The polling discipline of a trace that follows the event \<open>prev\<close>: no event follows a
  poll that read false, and a call of \<^verbatim>\<open>getBinanceVolume\<close> follows a poll that read
  true.
\<close>

fun disciplined :: "event \<Rightarrow> event list \<Rightarrow> bool" where
  "disciplined prev [] = True"
| "disciplined prev (e # es) =
     (prev \<noteq> Checkpoint (Some False)
      \<and> (is_call e \<longrightarrow> prev = Checkpoint (Some True))
      \<and> disciplined e es)"

definition final :: "event \<Rightarrow> event list \<Rightarrow> event" where
  "final prev es = (if es = [] then prev else last es)"

text \<open>
  How a trace may end: a loop returns right after a poll that read false, and it panics
  right after a poll that read nil or in a call of \<^verbatim>\<open>getBinanceVolume\<close>.
\<close>

definition ends_well :: "event list \<Rightarrow> outcome \<Rightarrow> bool" where
  "ends_well es out =
     (case out of
        Returned \<Rightarrow> es \<noteq> [] \<and> last es = Checkpoint (Some False)
      | Panicked \<Rightarrow> es \<noteq> [] \<and> (last es = Checkpoint None \<or> is_call (last es))
      | _ \<Rightarrow> True)"

section \<open>The session store and the command handler\<close>

subsection \<open>The status file of \<^verbatim>\<open>part_000\<close>\<close>

text \<open>
  \<^verbatim>\<open>monitoringStatus\<close> is a \<^verbatim>\<open>sync.Map\<close> from chat ids to booleans: an association
  list, where \<^verbatim>\<open>Load\<close> is \<open>map_of\<close>, \<^verbatim>\<open>Store\<close> is \<open>AList.update\<close> and \<^verbatim>\<open>Range\<close>
  visits every key once (\<open>AList.clearjunk\<close>). The status file is absent, unreadable,
  or holds bytes that are a JSON document or not; it is modelled at the level of the
  document that its bytes spell.
\<close>

datatype status_file = Absent | Unreadable | Garbage | Content json

record bot =
  monitoringStatus :: "(int64 \<times> bool) list"
  statusFile :: status_file

datatype effect =
    Send int64 string
  | Go variant
  | WriteFile json
  | LogLine string

text \<open>
  \<^verbatim>\<open>json.Marshal\<close> of a \<^verbatim>\<open>map[int64]bool\<close>: an object whose keys are the decimal
  forms of the ids (\<^verbatim>\<open>strconv.FormatInt\<close>), sorted as strings.
\<close>

definition digit_char :: "nat \<Rightarrow> char" where
  "digit_char d = ''0123456789'' ! d"

fun digits :: "nat \<Rightarrow> string" where
  "digits n = (if n < 10 then [digit_char n] else digits (n div 10) @ [digit_char (n mod 10)])"

declare digits.simps [simp del]

definition FormatInt :: "int \<Rightarrow> string" where
  "FormatInt i = (if i < 0 then CHR ''-'' # digits (nat (- i)) else digits (nat i))"

definition marshal_entry :: "int64 \<times> bool \<Rightarrow> string \<times> json" where
  "marshal_entry e = (FormatInt (sint (fst e)), JBool (snd e))"

definition Marshal :: "(int64 \<times> bool) list \<Rightarrow> json" where
  "Marshal statusMap = JObject (sort_key fst (map marshal_entry statusMap))"

text \<open>
  \<^verbatim>\<open>json.Unmarshal\<close> into a \<^verbatim>\<open>map[int64]bool\<close>. A key is read with
  \<^verbatim>\<open>strconv.ParseInt(key, 10, 64)\<close>: an optional sign and decimal digits, within the
  range of an int64. A value is a boolean, or \<^verbatim>\<open>null\<close>, which leaves the zero value
  \<^verbatim>\<open>false\<close>. Any other key, value or document is an error, and the document
  \<^verbatim>\<open>null\<close> is the empty map. The result lists the entries in the order of the
  document; in the Go map a later entry replaces an earlier one of the same key.
\<close>

definition ParseInt :: "string \<Rightarrow> int64 option" where
  "ParseInt s =
     (case split_sign s of
        (neg, r) \<Rightarrow>
          if r = [] \<or> \<not> list_all is_digit r then None
          else (let i = (if neg then - int (digits_val r) else int (digits_val r))
                in if - (2 ^ 63) \<le> i \<and> i < 2 ^ 63 then Some (word_of_int i) else None))"

fun unmarshal_entry :: "string \<times> json \<Rightarrow> (int64 \<times> bool) option" where
  "unmarshal_entry (k, JBool b) = map_option (\<lambda>chatID. (chatID, b)) (ParseInt k)"
| "unmarshal_entry (k, JNull) = map_option (\<lambda>chatID. (chatID, False)) (ParseInt k)"
| "unmarshal_entry (k, _) = None"

fun Unmarshal :: "json \<Rightarrow> (int64 \<times> bool) list option" where
  "Unmarshal JNull = Some []"
| "Unmarshal (JObject kvs) = sequence_opt (map unmarshal_entry kvs)"
| "Unmarshal _ = None"

text \<open>
  \<^verbatim>\<open>saveMonitoringStatus\<close>. Whether \<^verbatim>\<open>ioutil.WriteFile\<close> fails is an input; a failed
  write is logged and is taken to leave the file as it was. \<^verbatim>\<open>json.Marshal\<close> does
  not fail on a \<^verbatim>\<open>map[int64]bool\<close>.
\<close>

definition saveMonitoringStatus :: "bool \<Rightarrow> bot \<Rightarrow> bot \<times> effect list" where
  "saveMonitoringStatus write_fails st =
     (let statusMap = AList.clearjunk (monitoringStatus st);
          data = Marshal statusMap
      in if write_fails
         then (st, [WriteFile data, LogLine ''Error saving monitoring status''])
         else (st\<lparr>statusFile := Content data\<rparr>, [WriteFile data]))"

text \<open>
  \<^verbatim>\<open>loadMonitoringStatus\<close>: a missing file is passed over in silence, any other
  failure is logged; otherwise every entry is stored and a loop is started
  (\<^verbatim>\<open>go startMonitoring(chatID)\<close>) for every entry that is true. Go ranges over the map
  in an unspecified order; here it is the order of \<open>AList.clearjunk\<close>.
\<close>

definition store_all :: "(int64 \<times> bool) list \<Rightarrow> (int64 \<times> bool) list \<Rightarrow> (int64 \<times> bool) list" where
  "store_all statusMap m = foldl (\<lambda>m e. AList.update (fst e) (snd e) m) m statusMap"

definition loadMonitoringStatus :: "bot \<Rightarrow> bot \<times> effect list" where
  "loadMonitoringStatus st =
     (case statusFile st of
        Absent \<Rightarrow> (st, [])
      | Unreadable \<Rightarrow> (st, [LogLine ''Error reading monitoring status file''])
      | Garbage \<Rightarrow> (st, [LogLine ''Error unmarshaling monitoring status''])
      | Content data \<Rightarrow>
          (case Unmarshal data of
             None \<Rightarrow> (st, [LogLine ''Error unmarshaling monitoring status''])
           | Some entries \<Rightarrow>
               (let statusMap = AList.clearjunk (rev entries)
                in (st\<lparr>monitoringStatus := store_all statusMap (monitoringStatus st)\<rparr>,
                    map (\<lambda>e. Go (PerChat (fst e))) (filter snd statusMap)))))"

subsection \<open>The command handler of \<^verbatim>\<open>part_000\<close>\<close>

text \<open>
  An update of the Telegram channel: no message, or a message with its chat id, whether
  it is a command, and the command word.
\<close>

record message =
  chat :: int64
  is_command :: bool
  command :: string

definition stopMonitoring :: "bool \<Rightarrow> int64 \<Rightarrow> bot \<Rightarrow> bot \<times> effect list" where
  "stopMonitoring write_fails chatID st =
     (case saveMonitoringStatus write_fails
             (st\<lparr>monitoringStatus := AList.update chatID False (monitoringStatus st)\<rparr>) of
        (st', es) \<Rightarrow> (st', es @ [Send chatID ''Volume monitoring stopped!'']))"

definition welcome_text :: string where
  "welcome_text =
     ''Welcome to Binance Volume Monitor Bot!'' @ [CHR 0x0A, CHR 0x0A] @
     ''Available commands:'' @ [CHR 0x0A] @
     ''/monitor - Start volume monitoring'' @ [CHR 0x0A] @
     ''/stop - Stop volume monitoring'' @ [CHR 0x0A] @
     ''/status - Check monitoring status''"

text \<open>
  One iteration of \<^verbatim>\<open>for update := range updates\<close>. \<^verbatim>\<open>isMonitoring\<close> is
  \<^verbatim>\<open>monitoring != nil && monitoring.(bool)\<close>; the loop itself is started in a goroutine
  of its own, which stores the flag and saves.
\<close>

definition handle_update :: "bool \<Rightarrow> bot \<Rightarrow> message option \<Rightarrow> bot \<times> effect list" where
  "handle_update write_fails st update =
     (case update of
        None \<Rightarrow> (st, [])
      | Some m \<Rightarrow>
          (let chatID = chat m;
               isMonitoring = (map_of (monitoringStatus st) chatID = Some True)
           in if \<not> is_command m then (st, [])
              else if command m = ''start'' then (st, [Send chatID welcome_text])
              else if command m = ''monitor'' then
                (if \<not> isMonitoring then (st, [Go (PerChat chatID)])
                 else (st, [Send chatID ''Monitoring is already running!'']))
              else if command m = ''stop'' then
                (if isMonitoring then stopMonitoring write_fails chatID st
                 else (st, [Send chatID ''Monitoring is not running!'']))
              else if command m = ''status'' then
                (st, [Send chatID (if isMonitoring then ''Monitoring is currently running''
                                   else ''Monitoring is currently stopped'')])
              else (st, [])))"

fun handleCommands :: "bot \<Rightarrow> (bool \<times> message option) list \<Rightarrow> bot \<times> effect list" where
  "handleCommands st [] = (st, [])"
| "handleCommands st (u # us) =
     (case handle_update (fst u) st (snd u) of
        (st', es) \<Rightarrow> (case handleCommands st' us of (st'', es') \<Rightarrow> (st'', es @ es')))"

subsection \<open>The command handler of \<^verbatim>\<open>main.go\<close>\<close>

text \<open>
  Two globals: the flag \<^verbatim>\<open>monitoring\<close> and \<^verbatim>\<open>chatID\<close>, which every message sets.
  Nothing is persisted.
\<close>

record globals =
  monitoring :: bool
  chatID :: int64

definition handle_update_global :: "globals \<Rightarrow> message option \<Rightarrow> globals \<times> effect list" where
  "handle_update_global g update =
     (case update of
        None \<Rightarrow> (g, [])
      | Some m \<Rightarrow>
          (let g1 = g\<lparr>chatID := chat m\<rparr>
           in if \<not> is_command m then (g1, [])
              else if command m = ''start'' then (g1, [Send (chat m) welcome_text])
              else if command m = ''monitor'' then
                (if \<not> monitoring g1 then (g1, [Go Global])
                 else (g1, [Send (chat m) ''Monitoring is already running!'']))
              else if command m = ''stop'' then
                (if monitoring g1
                 then (g1\<lparr>monitoring := False\<rparr>, [Send (chat m) ''Volume monitoring stopped!''])
                 else (g1, [Send (chat m) ''Monitoring is not running!'']))
              else if command m = ''status'' then
                (g1, [Send (chat m) (if monitoring g1 then ''Monitoring is currently running''
                                     else ''Monitoring is currently stopped'')])
              else (g1, [])))"

section \<open>Example inputs\<close>

text \<open>
  A record as the exchange sends it: twelve fields, the volume a string at index 5.
\<close>

definition kline :: "string \<Rightarrow> json" where
  "kline volume =
     JArray [JNumber (Num 1700000000000), JString ''42000.10'', JString ''42100.00'',
             JString ''41900.55'', JString ''42050.00'', JString volume,
             JNumber (Num 1700003599999), JString ''1234567.89'', JNumber (Num 4321),
             JString ''50.5'', JString ''2123456.78'', JString ''0'']"

text \<open>
  A world for the examples. The ranking fails at the second observation and gives four
  symbols afterwards; the exchange knows the first symbol, answers 400 for the second,
  sends a single record for the third and cannot be reached for the fourth. The flag
  (global, and of chat 7) is set until the ninth observation.
\<close>

definition market :: world where
  "market =
     \<lparr>monitoring_at = (\<lambda>t. t < 9),
      status_at = (\<lambda>t c. if c = 7 then Some (t < 9) else None),
      rank_at = (\<lambda>t. if t = 1 then Inl FailedGetRank
                      else Inr [''ETHUSDT'', ''USDTUSDT'', ''BTCUSDT'', ''XRPUSDT'']),
      kline_at = (\<lambda>t symbol.
         if symbol = ''ETHUSDT''
         then Response 200 (Document (JArray [kline ''100.0'', kline ''600.0'']))
         else if symbol = ''USDTUSDT''
         then Response 400 (Document (JObject [(''code'', JNumber (Num (- 1121))),
                                               (''msg'', JString ''Invalid symbol.'')]))
         else if symbol = ''BTCUSDT''
         then Response 200 (Document (JArray [kline ''250.5'']))
         else GetError)\<rparr>"

text \<open>
  The same world, except that the flag is cleared while the loop fetches the ranking
  (observation 3) and set again before the loop polls it (observation 4): a
  \<^verbatim>\<open>stop\<close> command followed by a \<^verbatim>\<open>monitor\<close> command, whose new loop sets the flag.
\<close>

definition restarted :: world where
  "restarted = market\<lparr>monitoring_at := (\<lambda>t. t \<noteq> 3 \<and> t < 9)\<rparr>"

text \<open>The same world with the flag set throughout: the loop is never told to stop.\<close>

definition steady :: world where
  "steady = market\<lparr>monitoring_at := (\<lambda>t. True)\<rparr>"

section \<open>Evaluation of the float operations\<close>

lemma bitlen_numeral:
  "bitlen 0 = 0"
  "bitlen 1 = 1"
  "bitlen (Suc 0) = 1"
  "bitlen (numeral (Num.Bit0 n)) = Suc (bitlen (numeral n))"
  "bitlen (numeral (Num.Bit1 n)) = Suc (bitlen (numeral n))"
proof -
  show "bitlen 0 = 0" "bitlen 1 = 1" "bitlen (Suc 0) = 1"
    by (simp_all add: bitlen.simps)
  have "numeral (Num.Bit0 n) div 2 = (numeral n :: nat)"
    by simp
  then show "bitlen (numeral (Num.Bit0 n)) = Suc (bitlen (numeral n))"
    by (subst bitlen.simps) simp
  have "numeral (Num.Bit1 n) div 2 = (numeral n :: nat)"
    by simp
  then show "bitlen (numeral (Num.Bit1 n)) = Suc (bitlen (numeral n))"
    by (subst bitlen.simps) simp
qed

lemmas float64_eval =
  is_nan_def is_inf_def is_zero_def signed_zero_def signed_inf_def feq_def fgt_def
  fdiv_def round64_def round_half_even_def floor_log2_def pow2_def bitlen_numeral

lemmas ParseFloat_eval =
  ParseFloat_def split_sign_def lower_def readFloat_def hex_prefix_def read_decimal_def
  read_hex_def read_mantissa_def read_exponent_def exponent_val_def is_digit_def
  is_hex_digit_def digits_val_def hex_digits_val_def digit_val_def hex_digit_val_def pow10_def

section \<open>Properties of the volume fetcher\<close>

lemma unmarshal_kline_kline: "unmarshal_kline (kline volume) = Some
     [JNumber (Num 1700000000000), JString ''42000.10'', JString ''42100.00'',
      JString ''41900.55'', JString ''42050.00'', JString volume,
      JNumber (Num 1700003599999), JString ''1234567.89'', JNumber (Num 4321),
      JString ''50.5'', JString ''2123456.78'', JString ''0'']"
  by (simp add: kline_def)

text \<open>The result on a decoded response of at least two records with string volumes.\<close>

lemma getBinanceVolume_parsed:
  assumes "unmarshal_klines j = Some klines" and "2 \<le> length klines"
    and "volume_string (klines ! 0) = Some s0" and "volume_string (klines ! 1) = Some s1"
    and "status \<noteq> 400"
  shows "getBinanceVolume pf (Response status (Document j)) =
           (if feq (fst (pf s0)) (Num 0) then Returns (None, None)
            else Returns (Some \<lparr>PrevVolume = fst (pf s0), CurrVolume = fst (pf s1),
                                 Ratio = fdiv (fst (pf s1)) (fst (pf s0))\<rparr>, None))"
  using assms by (simp add: getBinanceVolume_def Let_def)

lemma getBinanceVolume_400: "getBinanceVolume pf (Response 400 b) = Returns (None, None)"
  by (simp add: getBinanceVolume_def)

lemma getBinanceVolume_short:
  assumes "unmarshal_klines j = Some klines" and "length klines < 2" and "status \<noteq> 400"
  shows "getBinanceVolume pf (Response status (Document j)) =
           Returns (None, Some InsufficientKlineData)"
  using assms by (simp add: getBinanceVolume_def)

lemma check_symbol_Returns:
  assumes "checkpoint v w t = (es, Completed, t1)"
    and "getBinanceVolume pf (kline_at w t1 symbol) = Returns r"
  shows "check_symbol v pf w symbol t =
           (es @ CallBinanceVolume symbol # check_volume v symbol r, Completed, Suc t1)"
  using assms by (simp add: check_symbol_def)

lemma checkpoint_events:
  "checkpoint v w t = (es, r) \<Longrightarrow> es = [] \<or> (\<exists>b. es = [Checkpoint b])"
  by (auto simp: checkpoint_def split: variant.splits option.splits)

lemma fgt_5_iff: "fgt x (Num 5) \<longleftrightarrow> x = PosInf \<or> (\<exists>r. x = Num r \<and> 5 < r)"
  by (cases x) (simp_all add: fgt_def is_nan_def)

lemma symbols_loop_Cons:
  assumes "check_symbol v pf w symbol t = (es, Completed, t1)"
  shows "symbols_loop v pf w (symbol # symbols) t = prepend es (symbols_loop v pf w symbols t1)"
  using assms by (simp add: prepend_def split: prod.splits)

lemma ParseFloat_100: "ParseFloat ''100.0'' = (Num 100, None)"
  by (simp add: ParseFloat_eval float64_eval)

lemma ParseFloat_600: "ParseFloat ''600.0'' = (Num 600, None)"
  by (simp add: ParseFloat_eval float64_eval)

lemma fdiv_600_100: "fdiv (Num 600) (Num 100) = Num 6"
  by (simp add: float64_eval)

lemma unmarshal_two_klines:
  "unmarshal_klines (JArray [kline a, kline b]) =
     Some [the (unmarshal_kline (kline a)), the (unmarshal_kline (kline b))]"
  by (simp add: unmarshal_kline_kline)

lemma getBinanceVolume_eth:
  "getBinanceVolume ParseFloat (Response 200 (Document (JArray [kline ''100.0'', kline ''600.0'']))) =
     Returns (Some \<lparr>PrevVolume = Num 100, CurrVolume = Num 600, Ratio = Num 6\<rparr>, None)"
proof -
  have "getBinanceVolume ParseFloat (Response 200 (Document (JArray [kline ''100.0'', kline ''600.0'']))) =
          (if feq (fst (ParseFloat ''100.0'')) (Num 0) then Returns (None, None)
           else Returns (Some \<lparr>PrevVolume = fst (ParseFloat ''100.0''),
                                CurrVolume = fst (ParseFloat ''600.0''),
                                Ratio = fdiv (fst (ParseFloat ''600.0'')) (fst (ParseFloat ''100.0''))\<rparr>,
                         None))"
    by (rule getBinanceVolume_parsed [OF unmarshal_two_klines])
       (simp_all add: unmarshal_kline_kline volume_string_def)
  then show ?thesis
    by (simp add: ParseFloat_100 ParseFloat_600 fdiv_600_100 feq_def is_nan_def is_zero_def)
qed

lemma market_simps:
  "monitoring_at market t = (t < 9)"
  "rank_at market t =
     (if t = 1 then Inl FailedGetRank
      else Inr [''ETHUSDT'', ''USDTUSDT'', ''BTCUSDT'', ''XRPUSDT''])"
  "kline_at market t ''ETHUSDT'' =
     Response 200 (Document (JArray [kline ''100.0'', kline ''600.0'']))"
  "kline_at market t ''USDTUSDT'' =
     Response 400 (Document (JObject [(''code'', JNumber (Num (- 1121))),
                                      (''msg'', JString ''Invalid symbol.'')]))"
  "kline_at market t ''BTCUSDT'' = Response 200 (Document (JArray [kline ''250.5'']))"
  "kline_at market t ''XRPUSDT'' = GetError"
  by (simp_all add: market_def)

lemma getBinanceVolume_btc:
  "getBinanceVolume pf (Response 200 (Document (JArray [kline ''250.5'']))) =
     Returns (None, Some InsufficientKlineData)"
  by (simp add: getBinanceVolume_def unmarshal_kline_kline)

lemma getBinanceVolume_GetError:
  "getBinanceVolume pf GetError = Returns (None, Some FailedGetKline)"
  by (simp add: getBinanceVolume_def)

subsection \<open>The alert threshold\<close>

text \<open>
  C1. When the volume fetcher returns a sample for a symbol, the iteration of the inner
  loop for that symbol emits an alert if and only if the ratio of the sample is strictly
  greater than 5: the events of the iteration are the poll, the call, the alert in that
  case only, and the pause of 100 ms. A float64 is greater than 5 when it is the
  positive infinity or a finite number above 5; a ratio equal to 5 gives no alert.
\<close>

theorem alert_iff_ratio_above_5:
  assumes "checkpoint v w t = (es, Completed, t1)"
    and "getBinanceVolume pf (kline_at w t1 symbol) = Returns (Some d, None)"
  shows "check_symbol v pf w symbol t =
           (es @ CallBinanceVolume symbol #
              (if fgt (Ratio d) (Num 5) then [Alert v symbol d] else []) @ [Sleep 100],
            Completed, Suc t1)
         \<and> ((\<exists>a \<in> set (fst (check_symbol v pf w symbol t)). is_alert a)
              \<longleftrightarrow> fgt (Ratio d) (Num 5))
         \<and> (fgt (Ratio d) (Num 5) \<longleftrightarrow> Ratio d = PosInf \<or> (\<exists>r. Ratio d = Num r \<and> 5 < r))
         \<and> (Ratio d = Num 5 \<longrightarrow> \<not> (\<exists>a \<in> set (fst (check_symbol v pf w symbol t)). is_alert a))"
proof -
  have step: "check_symbol v pf w symbol t =
      (es @ CallBinanceVolume symbol #
         (if fgt (Ratio d) (Num 5) then [Alert v symbol d] else []) @ [Sleep 100],
       Completed, Suc t1)"
    using check_symbol_Returns [OF assms] by (simp add: check_volume_def)
  have quiet: "\<forall>a \<in> set es. \<not> is_alert a"
    using checkpoint_events [OF assms(1)] by auto
  have iff: "(\<exists>a \<in> set (fst (check_symbol v pf w symbol t)). is_alert a)
               \<longleftrightarrow> fgt (Ratio d) (Num 5)"
    using quiet by (auto simp: step)
  have five: "\<not> fgt (Num 5) (Num 5)"
    by (simp add: fgt_def is_nan_def)
  show ?thesis
    using step iff five fgt_5_iff [of "Ratio d"] by auto
qed

theorem alert_iff_ratio_above_5_witness:
  "check_symbol Global ParseFloat market ''ETHUSDT'' 4 =
     ([Checkpoint (Some True), CallBinanceVolume ''ETHUSDT'',
       Alert Global ''ETHUSDT'' \<lparr>PrevVolume = Num 100, CurrVolume = Num 600, Ratio = Num 6\<rparr>,
       Sleep 100], Completed, 6)"
proof -
  have cp: "checkpoint Global market 4 = ([Checkpoint (Some True)], Completed, 5)"
    by (simp add: checkpoint_def market_def)
  have vol: "getBinanceVolume ParseFloat (kline_at market 5 ''ETHUSDT'') =
      Returns (Some \<lparr>PrevVolume = Num 100, CurrVolume = Num 600, Ratio = Num 6\<rparr>, None)"
    using getBinanceVolume_eth by (simp add: market_def)
  have "fgt (Num 6) (Num 5)"
    by (simp add: fgt_def is_nan_def)
  then show ?thesis
    using alert_iff_ratio_above_5 [OF cp vol] by simp
qed

subsection \<open>Status 400 and short responses\<close>

text \<open>
  C4. A kline request answered with status 400 makes \<open>getBinanceVolume\<close> return no
  sample and no error, whatever the body. The iteration of the inner loop for that
  symbol then consists of the poll, the call and the pause of 100 ms: no alert and no
  log line, and the inner loop goes on with the next symbol.
\<close>

theorem status_400_is_skipped:
  assumes "checkpoint v w t = (es, Completed, t1)"
    and "kline_at w t1 symbol = Response 400 b"
  shows "getBinanceVolume pf (kline_at w t1 symbol) = Returns (None, None)
         \<and> check_symbol v pf w symbol t =
             (es @ [CallBinanceVolume symbol, Sleep 100], Completed, Suc t1)
         \<and> symbols_loop v pf w (symbol # symbols) t =
             prepend (es @ [CallBinanceVolume symbol, Sleep 100])
               (symbols_loop v pf w symbols (Suc t1))"
proof -
  have vol: "getBinanceVolume pf (kline_at w t1 symbol) = Returns (None, None)"
    by (simp add: assms(2) getBinanceVolume_400)
  have step: "check_symbol v pf w symbol t =
      (es @ [CallBinanceVolume symbol, Sleep 100], Completed, Suc t1)"
    using check_symbol_Returns [OF assms(1) vol] by (simp add: check_volume_def)
  show ?thesis
    using vol step symbols_loop_Cons [OF step] by simp
qed

theorem status_400_is_skipped_witness:
  "getBinanceVolume ParseFloat (kline_at market 7 ''USDTUSDT'') = Returns (None, None)
   \<and> check_symbol Global ParseFloat market ''USDTUSDT'' 6 =
       ([Checkpoint (Some True), CallBinanceVolume ''USDTUSDT'', Sleep 100], Completed, 8)
   \<and> symbols_loop Global ParseFloat market [''USDTUSDT'', ''BTCUSDT''] 6 =
       prepend [Checkpoint (Some True), CallBinanceVolume ''USDTUSDT'', Sleep 100]
         (symbols_loop Global ParseFloat market [''BTCUSDT''] 8)"
proof -
  have cp: "checkpoint Global market 6 = ([Checkpoint (Some True)], Completed, 7)"
    by (simp add: checkpoint_def market_def)
  have resp: "kline_at market 7 ''USDTUSDT'' =
      Response 400 (Document (JObject [(''code'', JNumber (Num (- 1121))),
                                       (''msg'', JString ''Invalid symbol.'')]))"
    by (simp add: market_def)
  show ?thesis
    using status_400_is_skipped [OF cp resp, of ParseFloat "[''BTCUSDT'']"]
    by (simp del: symbols_loop.simps)
qed

text \<open>
  C5. A response other than 400 whose body decodes to fewer than two records makes
  \<open>getBinanceVolume\<close> return the error "insufficient kline data" and no sample. The
  iteration logs the error for the symbol (and, because of the \<^verbatim>\<open>continue\<close>, does not
  pause), and the inner loop goes on with the next symbol of the same cycle.
\<close>

theorem insufficient_data_is_logged:
  assumes "checkpoint v w t = (es, Completed, t1)"
    and "kline_at w t1 symbol = Response status (Document j)"
    and "status \<noteq> 400"
    and "unmarshal_klines j = Some klines"
    and "length klines < 2"
  shows "getBinanceVolume pf (kline_at w t1 symbol) = Returns (None, Some InsufficientKlineData)
         \<and> check_symbol v pf w symbol t =
             (es @ [CallBinanceVolume symbol, LogVolumeError symbol InsufficientKlineData],
              Completed, Suc t1)
         \<and> symbols_loop v pf w (symbol # symbols) t =
             prepend (es @ [CallBinanceVolume symbol, LogVolumeError symbol InsufficientKlineData])
               (symbols_loop v pf w symbols (Suc t1))"
proof -
  have vol: "getBinanceVolume pf (kline_at w t1 symbol) =
      Returns (None, Some InsufficientKlineData)"
    using getBinanceVolume_short [OF assms(4) assms(5) assms(3)] by (simp add: assms(2))
  have step: "check_symbol v pf w symbol t =
      (es @ [CallBinanceVolume symbol, LogVolumeError symbol InsufficientKlineData],
       Completed, Suc t1)"
    using check_symbol_Returns [OF assms(1) vol] by (simp add: check_volume_def)
  show ?thesis
    using vol step symbols_loop_Cons [OF step] by simp
qed

theorem insufficient_data_is_logged_witness:
  "getBinanceVolume ParseFloat (kline_at market 9 ''BTCUSDT'') =
     Returns (None, Some InsufficientKlineData)
   \<and> check_symbol Global ParseFloat market ''BTCUSDT'' 8 =
       ([Checkpoint (Some True), CallBinanceVolume ''BTCUSDT'',
         LogVolumeError ''BTCUSDT'' InsufficientKlineData], Completed, 10)
   \<and> symbols_loop Global ParseFloat market [''BTCUSDT'', ''XRPUSDT''] 8 =
       prepend [Checkpoint (Some True), CallBinanceVolume ''BTCUSDT'',
                LogVolumeError ''BTCUSDT'' InsufficientKlineData]
         (symbols_loop Global ParseFloat market [''XRPUSDT''] 10)"
proof -
  have cp: "checkpoint Global market 8 = ([Checkpoint (Some True)], Completed, 9)"
    by (simp add: checkpoint_def market_def)
  have resp: "kline_at market 9 ''BTCUSDT'' = Response 200 (Document (JArray [kline ''250.5'']))"
    by (simp add: market_def)
  have dec: "unmarshal_klines (JArray [kline ''250.5'']) =
      Some [the (unmarshal_kline (kline ''250.5''))]"
    by (simp add: unmarshal_kline_kline)
  show ?thesis
    using insufficient_data_is_logged [OF cp resp _ dec, of ParseFloat "[''XRPUSDT'']"]
    by (simp del: symbols_loop.simps)
qed

subsection \<open>Zero and malformed volumes\<close>

text \<open>The model returns the value 0 with every syntax error, as the library does.\<close>

lemma ParseFloat_syntax_error:
  "snd (ParseFloat s) = Some ErrSyntax \<Longrightarrow> fst (ParseFloat s) = Num 0"
  by (auto simp: ParseFloat_def Let_def split: prod.splits if_splits option.splits)

lemma ParseFloat_0: "ParseFloat ''0.0'' = (Num 0, None)"
  by (simp add: ParseFloat_eval float64_eval)

lemma ParseFloat_1: "ParseFloat ''1.0'' = (Num 1, None)"
  by (simp add: ParseFloat_eval float64_eval)

lemma ParseFloat_abc: "ParseFloat ''abc'' = (Num 0, Some ErrSyntax)"
  by (simp add: ParseFloat_eval float64_eval)

lemma ParseFloat_empty: "ParseFloat '''' = (Num 0, Some ErrSyntax)"
  by (simp add: ParseFloat_eval float64_eval)

lemma ParseFloat_1e309: "ParseFloat ''1e309'' = (PosInf, Some ErrRange)"
  by (simp add: ParseFloat_eval float64_eval)

text \<open>The hexadecimal form, underscores, and a number too small for a float64.\<close>

lemma ParseFloat_hex: "ParseFloat ''0x1p-2'' = (Num (1 / 4), None)"
  by (simp add: ParseFloat_eval float64_eval)

lemma ParseFloat_underscore: "ParseFloat ''1_000'' = (Num 1000, None)"
  by (simp add: ParseFloat_eval float64_eval underscoreOK_def)

lemma ParseFloat_bad_underscore: "ParseFloat ''1__0'' = (Num 0, Some ErrSyntax)"
  by (simp add: ParseFloat_eval float64_eval underscoreOK_def)

lemma ParseFloat_tiny: "ParseFloat ''-1e-400'' = (NegZero, None)"
  by (simp add: ParseFloat_eval float64_eval)

lemma fgt_0_not_feq_0: "fgt p (Num 0) \<Longrightarrow> \<not> feq p (Num 0)"
  by (cases p) (auto simp: fgt_def feq_def is_nan_def is_zero_def)

lemma fdiv_zero: "is_zero c \<Longrightarrow> fgt p (Num 0) \<Longrightarrow> is_zero (fdiv c p)"
  by (cases p) (auto simp: fdiv_def fgt_def is_nan_def is_zero_def is_inf_def signed_zero_def)

text \<open>
  C2, as the code has it. \<open>getBinanceVolume\<close> reads the volume string of both records
  before it compares the previous volume with zero, so the claim needs both records to
  hold a string at index 5. Then a previous volume that parses to zero (\<open>+0\<close> or \<open>-0\<close>)
  gives no sample and no error, whatever the status and the current volume; the result
  holds no quotient, and the iteration of the inner loop on it is the poll, the call and
  the pause: no alert.
\<close>

theorem zero_previous_volume_no_signal:
  assumes "unmarshal_klines j = Some klines" and "2 \<le> length klines"
    and "volume_string (klines ! 0) = Some s0" and "volume_string (klines ! 1) = Some s1"
    and "feq (fst (pf s0)) (Num 0)"
    and "checkpoint v w t = (es, Completed, t1)"
    and "kline_at w t1 symbol = Response status (Document j)"
  shows "getBinanceVolume pf (Response status (Document j)) = Returns (None, None)
         \<and> check_symbol v pf w symbol t =
             (es @ [CallBinanceVolume symbol, Sleep 100], Completed, Suc t1)"
proof -
  have vol: "getBinanceVolume pf (Response status (Document j)) = Returns (None, None)"
  proof (cases "status = 400")
    case True
    then show ?thesis by (simp add: getBinanceVolume_400)
  next
    case False
    then show ?thesis
      using getBinanceVolume_parsed [OF assms(1-4), of status pf] assms(5) by simp
  qed
  then have "getBinanceVolume pf (kline_at w t1 symbol) = Returns (None, None)"
    by (simp add: assms(7))
  from check_symbol_Returns [OF assms(6) this] vol show ?thesis
    by (simp add: check_volume_def)
qed

theorem zero_previous_volume_no_signal_witness:
  "getBinanceVolume ParseFloat
     (Response 200 (Document (JArray [kline ''0.0'', kline ''600.0'']))) = Returns (None, None)
   \<and> check_symbol Global ParseFloat
         (market\<lparr>kline_at := \<lambda>t symbol.
            Response 200 (Document (JArray [kline ''0.0'', kline ''600.0'']))\<rparr>) ''ETHUSDT'' 4 =
       ([Checkpoint (Some True), CallBinanceVolume ''ETHUSDT'', Sleep 100], Completed, 6)"
proof -
  let ?w = "market\<lparr>kline_at := \<lambda>t symbol.
              Response 200 (Document (JArray [kline ''0.0'', kline ''600.0'']))\<rparr>"
  have cp: "checkpoint Global ?w 4 = ([Checkpoint (Some True)], Completed, 5)"
    by (simp add: checkpoint_def market_def)
  have resp: "kline_at ?w 5 ''ETHUSDT'' =
      Response 200 (Document (JArray [kline ''0.0'', kline ''600.0'']))"
    by simp
  have zero: "feq (fst (ParseFloat ''0.0'')) (Num 0)"
    by (simp add: ParseFloat_0 feq_def is_nan_def)
  have v0: "volume_string
      ([the (unmarshal_kline (kline ''0.0'')), the (unmarshal_kline (kline ''600.0''))] ! 0) =
      Some ''0.0''"
    by (simp add: unmarshal_kline_kline volume_string_def)
  have v1: "volume_string
      ([the (unmarshal_kline (kline ''0.0'')), the (unmarshal_kline (kline ''600.0''))] ! 1) =
      Some ''600.0''"
    by (simp add: unmarshal_kline_kline volume_string_def)
  have len: "2 \<le> length
      [the (unmarshal_kline (kline ''0.0'')), the (unmarshal_kline (kline ''600.0''))]"
    by simp
  show ?thesis
    using zero_previous_volume_no_signal
      [where pf = ParseFloat,
        OF unmarshal_two_klines [of "''0.0''" "''600.0''"] len v0 v1 zero cp resp]
    by simp
qed

text \<open>
  The claim C2 as stated fails on a response of two records of which the second is
  empty: the previous volume parses to zero, and the call panics at the index
  \<^verbatim>\<open>klines[1][5]\<close> instead of returning.
\<close>

theorem zero_previous_volume_counterexample:
  "unmarshal_klines (JArray [kline ''0.0'', JArray []]) =
     Some [the (unmarshal_kline (kline ''0.0'')), []]
   \<and> volume_string (the (unmarshal_kline (kline ''0.0''))) = Some ''0.0''
   \<and> feq (fst (ParseFloat ''0.0'')) (Num 0)
   \<and> getBinanceVolume ParseFloat (Response 200 (Document (JArray [kline ''0.0'', JArray []]))) =
       Panics"
  by (simp add: unmarshal_kline_kline volume_string_def ParseFloat_0 feq_def is_nan_def
      getBinanceVolume_def)

text \<open>
  C3, as the code has it. When both records hold a string at index 5,
  \<open>getBinanceVolume\<close> does not panic and returns no error, whatever the two strings are
  and whatever the parser returns for them, its errors included: they are dropped. For
  a malformed string \<^verbatim>\<open>strconv.ParseFloat\<close> returns the value 0 and \<^verbatim>\<open>ErrSyntax\<close>;
  when the parser returns that for the previous volume, the result is no sample and no
  error. This is stated for every parser \<open>pf\<close>.
\<close>

theorem string_volumes_never_panic:
  assumes "unmarshal_klines j = Some klines" and "2 \<le> length klines"
    and "volume_string (klines ! 0) = Some s0" and "volume_string (klines ! 1) = Some s1"
  shows "getBinanceVolume pf (Response status (Document j)) \<noteq> Panics
         \<and> (\<exists>sample. getBinanceVolume pf (Response status (Document j)) = Returns (sample, None))
         \<and> (pf s0 = (Num 0, Some ErrSyntax) \<longrightarrow>
              getBinanceVolume pf (Response status (Document j)) = Returns (None, None))"
proof (cases "status = 400")
  case True
  then show ?thesis
    by (simp add: getBinanceVolume_400)
next
  case False
  have zero: "feq (fst (pf s0)) (Num 0)" if "pf s0 = (Num 0, Some ErrSyntax)"
    using that by (simp add: feq_def is_nan_def)
  show ?thesis
    using getBinanceVolume_parsed [OF assms False, of pf] zero
    by auto
qed

theorem string_volumes_never_panic_witness:
  "getBinanceVolume ParseFloat (Response 200 (Document (JArray [kline ''abc'', kline '''']))) \<noteq> Panics
   \<and> ParseFloat ''abc'' = (Num 0, Some ErrSyntax)
   \<and> ParseFloat '''' = (Num 0, Some ErrSyntax)
   \<and> getBinanceVolume ParseFloat (Response 200 (Document (JArray [kline ''abc'', kline '''']))) =
       Returns (None, None)"
proof -
  have v0: "volume_string
      ([the (unmarshal_kline (kline ''abc'')), the (unmarshal_kline (kline ''''))] ! 0) =
      Some ''abc''"
    by (simp add: unmarshal_kline_kline volume_string_def)
  have v1: "volume_string
      ([the (unmarshal_kline (kline ''abc'')), the (unmarshal_kline (kline ''''))] ! 1) =
      Some ''''"
    by (simp add: unmarshal_kline_kline volume_string_def)
  have len: "2 \<le> length
      [the (unmarshal_kline (kline ''abc'')), the (unmarshal_kline (kline ''''))]"
    by simp
  show ?thesis
    using string_volumes_never_panic
      [OF unmarshal_two_klines [of "''abc''" "''''"] len v0 v1, of ParseFloat 200]
    by (simp add: ParseFloat_abc ParseFloat_empty)
qed

text \<open>
  The claim C3 as stated fails on a first record whose element at index 5 is a JSON
  number: the type assertion \<^verbatim>\<open>klines[0][5].(string)\<close> panics.
\<close>

theorem malformed_volume_counterexample:
  "getBinanceVolume ParseFloat
     (Response 200 (Document (JArray
        [JArray [JNumber (Num 1700000000000), JString ''42000.10'', JString ''42100.00'',
                 JString ''41900.55'', JString ''42050.00'', JNumber (Num 100)],
         kline ''600.0'']))) = Panics"
  by (simp add: unmarshal_kline_kline volume_string_def getBinanceVolume_def)

text \<open>
  C10, as the code has it. When both records hold a string at index 5 and the status is
  not 400, the result is "no sample, no error" exactly when the previous volume parses
  to zero. When the previous volume is strictly positive the result is a sample that
  holds the two parsed volumes and their quotient, whatever the current volume is:
  \<^item> a current volume that parses to zero gives a ratio that is zero, and when the parser
    returns 0 and \<^verbatim>\<open>ErrSyntax\<close> for it, as \<^verbatim>\<open>strconv.ParseFloat\<close> does for a
    malformed string, the sample holds the current volume 0 and the ratio 0;
  \<^item> when the parser returns the positive infinity and \<^verbatim>\<open>ErrRange\<close> for it, as
    \<^verbatim>\<open>strconv.ParseFloat\<close> does for a number too large, the ratio is the positive
    infinity for a finite previous volume and a NaN for an infinite one.

  This is stated for every parser \<open>pf\<close>.
\<close>

theorem positive_previous_volume_gives_sample:
  assumes "unmarshal_klines j = Some klines" and "2 \<le> length klines"
    and "volume_string (klines ! 0) = Some s0" and "volume_string (klines ! 1) = Some s1"
    and "status \<noteq> 400"
  shows "(getBinanceVolume pf (Response status (Document j)) = Returns (None, None)
            \<longleftrightarrow> feq (fst (pf s0)) (Num 0))
         \<and> (fgt (fst (pf s0)) (Num 0) \<longrightarrow>
              getBinanceVolume pf (Response status (Document j)) =
                Returns (Some \<lparr>PrevVolume = fst (pf s0), CurrVolume = fst (pf s1),
                                 Ratio = fdiv (fst (pf s1)) (fst (pf s0))\<rparr>, None)
              \<and> (is_zero (fst (pf s1)) \<longrightarrow> is_zero (fdiv (fst (pf s1)) (fst (pf s0))))
              \<and> (pf s1 = (Num 0, Some ErrSyntax) \<longrightarrow>
                    getBinanceVolume pf (Response status (Document j)) =
                      Returns (Some \<lparr>PrevVolume = fst (pf s0), CurrVolume = Num 0,
                                       Ratio = Num 0\<rparr>, None))
              \<and> (pf s1 = (PosInf, Some ErrRange) \<longrightarrow>
                    getBinanceVolume pf (Response status (Document j)) =
                      Returns (Some \<lparr>PrevVolume = fst (pf s0), CurrVolume = PosInf,
                                       Ratio = (if fst (pf s0) = PosInf then NaN else PosInf)\<rparr>,
                               None)))"
proof -
  have sample: "getBinanceVolume pf (Response status (Document j)) =
      Returns (Some \<lparr>PrevVolume = fst (pf s0), CurrVolume = fst (pf s1),
                       Ratio = fdiv (fst (pf s1)) (fst (pf s0))\<rparr>, None)"
    if "fgt (fst (pf s0)) (Num 0)"
    using getBinanceVolume_parsed [OF assms, of pf] fgt_0_not_feq_0 [OF that] by simp
  have none: "getBinanceVolume pf (Response status (Document j)) = Returns (None, None)
      \<longleftrightarrow> feq (fst (pf s0)) (Num 0)"
    using getBinanceVolume_parsed [OF assms, of pf] by simp
  have zero: "fdiv (Num 0) p = Num 0" if "fgt p (Num 0)" for p
    using that
    by (cases p) (auto simp: fdiv_def fgt_def is_nan_def is_zero_def is_inf_def signed_zero_def)
  have inf: "fdiv PosInf p = (if p = PosInf then NaN else PosInf)" if "fgt p (Num 0)" for p
    using that
    by (cases p) (auto simp: fdiv_def fgt_def is_nan_def is_zero_def is_inf_def signed_inf_def)
  show ?thesis
  proof (cases "fgt (fst (pf s0)) (Num 0)")
    case True
    from sample [OF True] none fdiv_zero [OF _ True] zero [OF True] inf [OF True] show ?thesis
      by auto
  next
    case False
    with none show ?thesis
      by simp
  qed
qed

theorem positive_previous_volume_gives_sample_witness:
  "getBinanceVolume ParseFloat (Response 200 (Document (JArray [kline ''100.0'', kline ''abc'']))) =
     Returns (Some \<lparr>PrevVolume = Num 100, CurrVolume = Num 0, Ratio = Num 0\<rparr>, None)
   \<and> getBinanceVolume ParseFloat (Response 200 (Document (JArray [kline ''100.0'', kline ''1e309'']))) =
       Returns (Some \<lparr>PrevVolume = Num 100, CurrVolume = PosInf, Ratio = PosInf\<rparr>, None)
   \<and> getBinanceVolume ParseFloat (Response 200 (Document (JArray [kline ''abc'', kline ''600.0'']))) =
       Returns (None, None)"
proof -
  have v0: "volume_string
      ([the (unmarshal_kline (kline s0)), the (unmarshal_kline (kline s1))] ! 0) = Some s0"
    for s0 s1
    by (simp add: unmarshal_kline_kline volume_string_def)
  have v1: "volume_string
      ([the (unmarshal_kline (kline s0)), the (unmarshal_kline (kline s1))] ! 1) = Some s1"
    for s0 s1
    by (simp add: unmarshal_kline_kline volume_string_def)
  have len: "2 \<le> length [the (unmarshal_kline (kline s0)), the (unmarshal_kline (kline s1))]"
    for s0 s1
    by simp
  have status: "(200 :: int) \<noteq> 400"
    by simp
  have pos: "fgt (fst (ParseFloat ''100.0'')) (Num 0)"
    by (simp add: ParseFloat_100 fgt_def is_nan_def)
  have zero: "feq (fst (ParseFloat ''abc'')) (Num 0)"
    by (simp add: ParseFloat_abc feq_def is_nan_def)
  from positive_previous_volume_gives_sample
      [where pf = ParseFloat,
        OF unmarshal_two_klines [of "''100.0''" "''abc''"] len v0 v1 status]
    positive_previous_volume_gives_sample
      [where pf = ParseFloat,
        OF unmarshal_two_klines [of "''100.0''" "''1e309''"] len v0 v1 status]
    positive_previous_volume_gives_sample
      [where pf = ParseFloat,
        OF unmarshal_two_klines [of "''abc''" "''600.0''"] len v0 v1 status]
    pos zero
  show ?thesis
    by (simp add: ParseFloat_100 ParseFloat_abc ParseFloat_1e309 fdiv_def is_nan_def
        is_inf_def is_zero_def signed_zero_def signed_inf_def)
qed

text \<open>
  The claim C10 as stated fails in two ways. On a second record whose element at index 5
  is \<^verbatim>\<open>null\<close> the previous volume parses to 100 and the call panics instead of
  returning a sample. On the current volume \<^verbatim>\<open>1e309\<close>, which \<^verbatim>\<open>strconv.ParseFloat\<close>
  rejects as out of range, the parsed value is the positive infinity, and with the
  previous volume 100 so is the ratio: the current volume fails to parse and the ratio
  is not 0.
\<close>

theorem positive_previous_volume_counterexample:
  "fgt (fst (ParseFloat ''100.0'')) (Num 0)
   \<and> getBinanceVolume ParseFloat
       (Response 200 (Document (JArray
          [kline ''100.0'',
           JArray [JNumber (Num 1700003600000), JString ''42050.00'', JString ''42300.00'',
                   JString ''42000.00'', JString ''42250.00'', JNull]]))) = Panics
   \<and> snd (ParseFloat ''1e309'') = Some ErrRange
   \<and> getBinanceVolume ParseFloat
       (Response 200 (Document (JArray [kline ''100.0'', kline ''1e309'']))) =
       Returns (Some \<lparr>PrevVolume = Num 100, CurrVolume = PosInf, Ratio = PosInf\<rparr>, None)
   \<and> \<not> is_zero PosInf"
proof -
  have pos: "fgt (fst (ParseFloat ''100.0'')) (Num 0)"
    by (simp add: ParseFloat_100 fgt_def is_nan_def)
  have panic: "getBinanceVolume ParseFloat
       (Response 200 (Document (JArray
          [kline ''100.0'',
           JArray [JNumber (Num 1700003600000), JString ''42050.00'', JString ''42300.00'',
                   JString ''42000.00'', JString ''42250.00'', JNull]]))) = Panics"
    by (simp add: unmarshal_kline_kline volume_string_def getBinanceVolume_def)
  have ratio: "fdiv PosInf (Num 100) = PosInf"
    by (simp add: fdiv_def is_nan_def is_inf_def signed_inf_def)
  have inf: "getBinanceVolume ParseFloat
       (Response 200 (Document (JArray [kline ''100.0'', kline ''1e309'']))) =
       Returns (Some \<lparr>PrevVolume = Num 100, CurrVolume = PosInf, Ratio = PosInf\<rparr>, None)"
    by (simp add: unmarshal_kline_kline volume_string_def getBinanceVolume_def
        ParseFloat_100 ParseFloat_1e309 ratio feq_def is_nan_def is_zero_def)
  show ?thesis
    using pos panic inf by (simp add: ParseFloat_1e309 is_zero_def)
qed

section \<open>Properties of the monitoring loops\<close>

subsection \<open>Unrolling\<close>

text \<open>
  Unrolling the outer loop once more only extends the trace, and changes nothing once
  the loop has ended.
\<close>

lemma monitoring_loop_stable:
  "snd (monitoring_loop n v pf w t) \<noteq> StillRunning \<Longrightarrow>
     monitoring_loop (Suc n) v pf w t = monitoring_loop n v pf w t"
proof (induction n arbitrary: t)
  case 0
  then show ?case by simp
next
  case (Suc n)
  obtain es1 out1 u where cp: "checkpoint v w t = (es1, out1, u)"
    by (cases "checkpoint v w t") auto
  show ?case
  proof (cases "out1 = Completed")
    case go: True
    show ?thesis
    proof (cases "rank_at w u")
      case (Inl err)
      with Suc.prems cp go have "snd (monitoring_loop n v pf w (Suc u)) \<noteq> StillRunning"
        by (simp add: prepend_def)
      from Suc.IH [OF this] cp go Inl show ?thesis
        by (simp del: monitoring_loop.simps add: monitoring_loop.simps(2) [of "Suc n"]
            monitoring_loop.simps(2) [of n])
    next
      case (Inr symbols)
      obtain es2 out2 u2 where inner: "symbols_loop v pf w symbols (Suc u) = (es2, out2, u2)"
        by (cases "symbols_loop v pf w symbols (Suc u)") auto
      show ?thesis
      proof (cases "out2 = Completed")
        case True
        with Suc.prems cp go Inr inner have "snd (monitoring_loop n v pf w u2) \<noteq> StillRunning"
          by (simp add: prepend_def)
        from Suc.IH [OF this] cp go Inr inner True show ?thesis
          by (simp del: monitoring_loop.simps add: monitoring_loop.simps(2) [of "Suc n"]
              monitoring_loop.simps(2) [of n])
      next
        case False
        with cp go Inr inner show ?thesis
          by (cases out2)
             (simp_all del: monitoring_loop.simps add: monitoring_loop.simps(2) [of "Suc n"]
               monitoring_loop.simps(2) [of n])
      qed
    qed
  next
    case False
    with cp show ?thesis
      by (cases out1)
         (simp_all del: monitoring_loop.simps add: monitoring_loop.simps(2) [of "Suc n"]
           monitoring_loop.simps(2) [of n])
  qed
qed

lemma monitoring_loop_extends:
  "\<exists>es. fst (monitoring_loop (Suc n) v pf w t) = fst (monitoring_loop n v pf w t) @ es"
proof (induction n arbitrary: t)
  case 0
  then show ?case by simp
next
  case (Suc n)
  obtain es1 out1 u where cp: "checkpoint v w t = (es1, out1, u)"
    by (cases "checkpoint v w t") auto
  show ?case
  proof (cases "out1 = Completed")
    case go: True
    show ?thesis
    proof (cases "rank_at w u")
      case (Inl err)
      from Suc.IH [of "Suc u"] cp go Inl show ?thesis
        by (auto simp del: monitoring_loop.simps simp add: prepend_def
            monitoring_loop.simps(2) [of "Suc n"] monitoring_loop.simps(2) [of n])
    next
      case (Inr symbols)
      obtain es2 out2 u2 where inner: "symbols_loop v pf w symbols (Suc u) = (es2, out2, u2)"
        by (cases "symbols_loop v pf w symbols (Suc u)") auto
      from Suc.IH [of u2] cp go Inr inner show ?thesis
        by (cases out2)
           (auto simp del: monitoring_loop.simps simp add: prepend_def
             monitoring_loop.simps(2) [of "Suc n"] monitoring_loop.simps(2) [of n])
    qed
  next
    case False
    with cp show ?thesis
      by (cases out1)
         (simp_all del: monitoring_loop.simps add: monitoring_loop.simps(2) [of "Suc n"]
           monitoring_loop.simps(2) [of n])
  qed
qed

subsection \<open>How the loops end\<close>

lemma ends_well_append: "ends_well es' out \<Longrightarrow> ends_well (es @ es') out"
  by (auto simp: ends_well_def split: outcome.splits)

lemma ends_well_Cons: "ends_well es out \<Longrightarrow> ends_well (e # es) out"
  by (auto simp: ends_well_def split: outcome.splits)

lemma checkpoint_ends_well:
  "checkpoint v w t = (es, out, t1) \<Longrightarrow> ends_well es out \<and> out \<noteq> StillRunning"
  by (auto simp: checkpoint_def ends_well_def split: variant.splits option.splits if_splits)

lemma check_symbol_ends_well:
  "check_symbol v pf w symbol t = (es, out, t1) \<Longrightarrow> ends_well es out \<and> out \<noteq> StillRunning"
  using checkpoint_ends_well [of v w t]
  by (auto simp: check_symbol_def ends_well_def split: prod.splits outcome.splits go.splits)

lemma symbols_loop_ends_well:
  "symbols_loop v pf w symbols t = (es, out, t1) \<Longrightarrow> ends_well es out \<and> out \<noteq> StillRunning"
proof (induction symbols arbitrary: t es out t1)
  case Nil
  then show ?case by (simp add: ends_well_def)
next
  case (Cons symbol symbols)
  obtain es1 out1 u where step: "check_symbol v pf w symbol t = (es1, out1, u)"
    by (cases "check_symbol v pf w symbol t") auto
  show ?case
  proof (cases "out1 = Completed")
    case True
    obtain es2 out2 u2 where rest: "symbols_loop v pf w symbols u = (es2, out2, u2)"
      by (cases "symbols_loop v pf w symbols u") auto
    from Cons.prems step True rest have "es = es1 @ es2" and "out = out2"
      by simp_all
    with Cons.IH [OF rest] show ?thesis
      by (simp add: ends_well_append)
  next
    case False
    with Cons.prems step have "es = es1" and "out = out1"
      by (cases out1; simp)+
    with check_symbol_ends_well [OF step] show ?thesis
      by simp
  qed
qed

lemma monitoring_loop_ends_well:
  "monitoring_loop n v pf w t = (es, out) \<Longrightarrow> ends_well es out \<and> out \<noteq> Completed"
proof (induction n arbitrary: t es out)
  case 0
  then show ?case by (simp add: ends_well_def)
next
  case (Suc n)
  obtain es1 out1 u where cp: "checkpoint v w t = (es1, out1, u)"
    by (cases "checkpoint v w t") auto
  show ?case
  proof (cases "out1 = Completed")
    case go: True
    show ?thesis
    proof (cases "rank_at w u")
      case (Inl err)
      with Suc.prems cp go have "es = (es1 @ [CallMarketCapRank, LogRankError err, Sleep 300000])
            @ fst (monitoring_loop n v pf w (Suc u))"
        and "out = snd (monitoring_loop n v pf w (Suc u))"
        by (simp_all add: prepend_def)
      with Suc.IH [of "Suc u" "fst (monitoring_loop n v pf w (Suc u))"
          "snd (monitoring_loop n v pf w (Suc u))"]
      show ?thesis
        by (auto intro!: ends_well_append ends_well_Cons)
    next
      case (Inr symbols)
      obtain es2 out2 u2 where inner: "symbols_loop v pf w symbols (Suc u) = (es2, out2, u2)"
        by (cases "symbols_loop v pf w symbols (Suc u)") auto
      show ?thesis
      proof (cases "out2 = Completed")
        case True
        with Suc.prems cp go Inr inner
        have "es = (es1 @ CallMarketCapRank # es2 @ [LogCheckCompleted, Sleep 300000])
              @ fst (monitoring_loop n v pf w u2)"
          and "out = snd (monitoring_loop n v pf w u2)"
          by (simp_all add: prepend_def)
        with Suc.IH [of u2 "fst (monitoring_loop n v pf w u2)"
            "snd (monitoring_loop n v pf w u2)"]
        show ?thesis
          by (auto intro!: ends_well_append ends_well_Cons)
      next
        case False
        with Suc.prems cp go Inr inner
        have "es = (es1 @ [CallMarketCapRank]) @ es2" and "out = out2"
          by (cases out2; simp)+
        with symbols_loop_ends_well [OF inner] False show ?thesis
          by (auto intro!: ends_well_append ends_well_Cons)
      qed
    qed
  next
    case False
    with Suc.prems cp have "es = es1" and "out = out1"
      by (cases out1; simp)+
    with checkpoint_ends_well [OF cp] False show ?thesis
      by simp
  qed
qed

text \<open>
  C8. A failure of \<^verbatim>\<open>getMarketCapRank\<close> ends the current cycle only: the loop logs it,
  sleeps five minutes (300000 ms) and goes on with the next cycle, and when the poll of
  that cycle reads true the ranking is fetched again. An error returned by
  \<^verbatim>\<open>getBinanceVolume\<close> ends the check of its symbol only: the loop logs it and goes on
  with the next symbol of the same cycle. Each of the two holds for every world in
  which the failure occurs. No error ends the loop: in every world, the loop returns
  only right after a poll that read false, and the only other end is a panic, right
  after a poll that read nil or in a call of \<^verbatim>\<open>getBinanceVolume\<close>.
\<close>

theorem errors_end_only_their_step:
  "(checkpoint v w t = (es, Completed, t1) \<and> rank_at w t1 = Inl err \<longrightarrow>
      monitoring_loop (Suc n) v pf w t =
        prepend (es @ [CallMarketCapRank, LogRankError err, Sleep 300000])
          (monitoring_loop n v pf w (Suc t1))
      \<and> (\<forall>es2 t2. checkpoint v w (Suc t1) = (es2, Completed, t2) \<longrightarrow>
            (\<exists>rest. fst (monitoring_loop (Suc (Suc n)) v pf w t) =
               es @ [CallMarketCapRank, LogRankError err, Sleep 300000]
                 @ es2 @ CallMarketCapRank # rest)))
   \<and> (checkpoint v w u = (es', Completed, u1)
        \<and> getBinanceVolume pf (kline_at w u1 symbol) = Returns (sample, Some e) \<longrightarrow>
      symbols_loop v pf w (symbol # symbols) u =
        prepend (es' @ [CallBinanceVolume symbol, LogVolumeError symbol e])
          (symbols_loop v pf w symbols (Suc u1)))
   \<and> (snd (monitoring_loop m v pf w t0) = Returned \<longrightarrow>
        fst (monitoring_loop m v pf w t0) \<noteq> []
        \<and> last (fst (monitoring_loop m v pf w t0)) = Checkpoint (Some False))
   \<and> (snd (monitoring_loop m v pf w t0) = Panicked \<longrightarrow>
        fst (monitoring_loop m v pf w t0) \<noteq> []
        \<and> (last (fst (monitoring_loop m v pf w t0)) = Checkpoint None
            \<or> is_call (last (fst (monitoring_loop m v pf w t0)))))
   \<and> snd (monitoring_loop m v pf w t0) \<noteq> Completed"
proof -
  have outer: "monitoring_loop (Suc k) v pf w t =
      prepend (es @ [CallMarketCapRank, LogRankError err, Sleep 300000])
        (monitoring_loop k v pf w (Suc t1))"
    if "checkpoint v w t = (es, Completed, t1)" and "rank_at w t1 = Inl err" for k
    using that by simp
  have again: "\<exists>rest. fst (monitoring_loop (Suc k) v pf w (Suc t1)) = es2 @ CallMarketCapRank # rest"
    if "checkpoint v w (Suc t1) = (es2, Completed, t2)" for es2 t2 k
  proof (cases "rank_at w t2")
    case (Inl err2)
    with that show ?thesis
      by (simp add: prepend_def)
  next
    case (Inr symbols2)
    obtain es3 out3 t3 where inner: "symbols_loop v pf w symbols2 (Suc t2) = (es3, out3, t3)"
      by (cases "symbols_loop v pf w symbols2 (Suc t2)") auto
    with that Inr show ?thesis
      by (cases out3) (simp_all add: prepend_def)
  qed
  have retried: "\<exists>rest. fst (monitoring_loop (Suc (Suc n)) v pf w t) =
               es @ [CallMarketCapRank, LogRankError err, Sleep 300000]
                 @ es2 @ CallMarketCapRank # rest"
    if "checkpoint v w t = (es, Completed, t1)" and "rank_at w t1 = Inl err"
      and "checkpoint v w (Suc t1) = (es2, Completed, t2)" for es2 t2
  proof -
    from again [OF that(3), of n] obtain rest
      where "fst (monitoring_loop (Suc n) v pf w (Suc t1)) = es2 @ CallMarketCapRank # rest"
      by blast
    with outer [OF that(1,2), of "Suc n"] show ?thesis
      by (simp add: prepend_def del: monitoring_loop.simps)
  qed
  have inner: "symbols_loop v pf w (symbol # symbols) u =
      prepend (es' @ [CallBinanceVolume symbol, LogVolumeError symbol e])
        (symbols_loop v pf w symbols (Suc u1))"
    if "checkpoint v w u = (es', Completed, u1)"
      and "getBinanceVolume pf (kline_at w u1 symbol) = Returns (sample, Some e)"
  proof -
    have "check_symbol v pf w symbol u =
        (es' @ [CallBinanceVolume symbol, LogVolumeError symbol e], Completed, Suc u1)"
      using check_symbol_Returns [OF that] by (simp add: check_volume_def)
    from symbols_loop_Cons [OF this] show ?thesis .
  qed
  have ending: "ends_well (fst (monitoring_loop m v pf w t0)) (snd (monitoring_loop m v pf w t0))
      \<and> snd (monitoring_loop m v pf w t0) \<noteq> Completed"
    by (rule monitoring_loop_ends_well) simp
  then have ends:
    "snd (monitoring_loop m v pf w t0) = Returned \<longrightarrow>
        fst (monitoring_loop m v pf w t0) \<noteq> []
        \<and> last (fst (monitoring_loop m v pf w t0)) = Checkpoint (Some False)"
    "snd (monitoring_loop m v pf w t0) = Panicked \<longrightarrow>
        fst (monitoring_loop m v pf w t0) \<noteq> []
        \<and> (last (fst (monitoring_loop m v pf w t0)) = Checkpoint None
            \<or> is_call (last (fst (monitoring_loop m v pf w t0))))"
    "snd (monitoring_loop m v pf w t0) \<noteq> Completed"
    by (simp_all add: ends_well_def split: outcome.splits)
  from outer [of n] retried inner ends show ?thesis
    by blast
qed

theorem errors_end_only_their_step_witness:
  "monitoring_loop 2 Global ParseFloat steady 0 =
     ([Checkpoint (Some True), CallMarketCapRank, LogRankError FailedGetRank, Sleep 300000,
       Checkpoint (Some True), CallMarketCapRank,
       Checkpoint (Some True), CallBinanceVolume ''ETHUSDT'',
       Alert Global ''ETHUSDT'' \<lparr>PrevVolume = Num 100, CurrVolume = Num 600, Ratio = Num 6\<rparr>,
       Sleep 100,
       Checkpoint (Some True), CallBinanceVolume ''USDTUSDT'', Sleep 100,
       Checkpoint (Some True), CallBinanceVolume ''BTCUSDT'',
       LogVolumeError ''BTCUSDT'' InsufficientKlineData,
       Checkpoint (Some True), CallBinanceVolume ''XRPUSDT'',
       LogVolumeError ''XRPUSDT'' FailedGetKline,
       LogCheckCompleted, Sleep 300000], StillRunning)
   \<and> symbols_loop Global ParseFloat steady [''BTCUSDT'', ''XRPUSDT''] 8 =
       ([Checkpoint (Some True), CallBinanceVolume ''BTCUSDT'',
         LogVolumeError ''BTCUSDT'' InsufficientKlineData,
         Checkpoint (Some True), CallBinanceVolume ''XRPUSDT'',
         LogVolumeError ''XRPUSDT'' FailedGetKline], Completed, 12)
   \<and> snd (monitoring_loop 2 Global ParseFloat market 0) = Returned
   \<and> last (fst (monitoring_loop 2 Global ParseFloat market 0)) = Checkpoint (Some False)
   \<and> snd (monitoring_loop 1 (PerChat 8) ParseFloat market 0) = Panicked
   \<and> last (fst (monitoring_loop 1 (PerChat 8) ParseFloat market 0)) = Checkpoint None"
proof -
  have fields:
    "monitoring_at steady t = True"
    "rank_at steady t = rank_at market t"
    "kline_at steady t symbol = kline_at market t symbol" for t symbol
    by (simp_all add: steady_def)
  have cp: "checkpoint Global steady t = ([Checkpoint (Some True)], Completed, Suc t)" for t
    by (simp add: checkpoint_def fields)
  have rank: "rank_at steady 1 = Inl FailedGetRank"
    by (simp add: fields market_simps)
  have vol: "getBinanceVolume ParseFloat (kline_at steady 9 ''BTCUSDT'') =
      Returns (None, Some InsufficientKlineData)"
    by (simp add: fields market_simps getBinanceVolume_btc)
  have next_cycle: "monitoring_loop 1 Global ParseFloat steady (Suc 1) =
     ([Checkpoint (Some True), CallMarketCapRank,
       Checkpoint (Some True), CallBinanceVolume ''ETHUSDT'',
       Alert Global ''ETHUSDT'' \<lparr>PrevVolume = Num 100, CurrVolume = Num 600, Ratio = Num 6\<rparr>,
       Sleep 100,
       Checkpoint (Some True), CallBinanceVolume ''USDTUSDT'', Sleep 100,
       Checkpoint (Some True), CallBinanceVolume ''BTCUSDT'',
       LogVolumeError ''BTCUSDT'' InsufficientKlineData,
       Checkpoint (Some True), CallBinanceVolume ''XRPUSDT'',
       LogVolumeError ''XRPUSDT'' FailedGetKline,
       LogCheckCompleted, Sleep 300000], StillRunning)"
    by (simp add: prepend_def cp check_symbol_def check_volume_def fields market_simps
        getBinanceVolume_eth getBinanceVolume_400 getBinanceVolume_btc
        getBinanceVolume_GetError fgt_def is_nan_def)
  have next_symbol: "symbols_loop Global ParseFloat steady [''XRPUSDT''] (Suc 9) =
       ([Checkpoint (Some True), CallBinanceVolume ''XRPUSDT'',
         LogVolumeError ''XRPUSDT'' FailedGetKline], Completed, 12)"
    by (simp add: cp check_symbol_def check_volume_def fields market_simps
        getBinanceVolume_GetError)
  have two: "monitoring_loop 2 Global ParseFloat steady 0 =
      monitoring_loop (Suc 1) Global ParseFloat steady 0"
    by (simp add: numeral_2_eq_2)
  from errors_end_only_their_step
    [where v = Global and w = steady and pf = ParseFloat and t = 0
       and es = "[Checkpoint (Some True)]" and ?t1.0 = 1 and err = FailedGetRank and n = 1
       and u = 8 and es' = "[Checkpoint (Some True)]" and ?u1.0 = 9
       and symbol = "''BTCUSDT''" and sample = None and e = InsufficientKlineData
       and symbols = "[''XRPUSDT'']"]
    cp [of 0] cp [of 8] rank vol
  have "monitoring_loop (Suc 1) Global ParseFloat steady 0 =
        prepend ([Checkpoint (Some True)] @ [CallMarketCapRank, LogRankError FailedGetRank, Sleep 300000])
          (monitoring_loop 1 Global ParseFloat steady (Suc 1))"
    and "symbols_loop Global ParseFloat steady (''BTCUSDT'' # [''XRPUSDT'']) 8 =
        prepend ([Checkpoint (Some True)] @
                 [CallBinanceVolume ''BTCUSDT'', LogVolumeError ''BTCUSDT'' InsufficientKlineData])
          (symbols_loop Global ParseFloat steady [''XRPUSDT''] (Suc 9))"
    by (simp_all del: monitoring_loop.simps symbols_loop.simps)
  with two next_cycle next_symbol have errors:
    "monitoring_loop 2 Global ParseFloat steady 0 =
     ([Checkpoint (Some True), CallMarketCapRank, LogRankError FailedGetRank, Sleep 300000,
       Checkpoint (Some True), CallMarketCapRank,
       Checkpoint (Some True), CallBinanceVolume ''ETHUSDT'',
       Alert Global ''ETHUSDT'' \<lparr>PrevVolume = Num 100, CurrVolume = Num 600, Ratio = Num 6\<rparr>,
       Sleep 100,
       Checkpoint (Some True), CallBinanceVolume ''USDTUSDT'', Sleep 100,
       Checkpoint (Some True), CallBinanceVolume ''BTCUSDT'',
       LogVolumeError ''BTCUSDT'' InsufficientKlineData,
       Checkpoint (Some True), CallBinanceVolume ''XRPUSDT'',
       LogVolumeError ''XRPUSDT'' FailedGetKline,
       LogCheckCompleted, Sleep 300000], StillRunning)
     \<and> symbols_loop Global ParseFloat steady [''BTCUSDT'', ''XRPUSDT''] 8 =
       ([Checkpoint (Some True), CallBinanceVolume ''BTCUSDT'',
         LogVolumeError ''BTCUSDT'' InsufficientKlineData,
         Checkpoint (Some True), CallBinanceVolume ''XRPUSDT'',
         LogVolumeError ''XRPUSDT'' FailedGetKline], Completed, 12)"
    by (simp add: prepend_def del: monitoring_loop.simps symbols_loop.simps)
  have stopped: "snd (monitoring_loop 2 Global ParseFloat market 0) = Returned"
    by (simp add: prepend_def numeral_2_eq_2 checkpoint_def check_symbol_def check_volume_def
        market_simps getBinanceVolume_eth getBinanceVolume_400 getBinanceVolume_btc
        getBinanceVolume_GetError fgt_def is_nan_def)
  have absent: "monitoring_loop 1 (PerChat 8) ParseFloat market 0 = ([Checkpoint None], Panicked)"
    by (simp add: checkpoint_def market_def)
  from errors_end_only_their_step
    [where v = Global and w = market and pf = ParseFloat and m = 2 and ?t0.0 = 0
       and t = 0 and es = "[]" and ?t1.0 = 0 and err = FailedGetRank and n = 0
       and u = 0 and es' = "[]" and ?u1.0 = 0
       and symbol = "[]" and sample = None and e = FailedGetKline and symbols = "[]"]
    stopped
  have returned: "last (fst (monitoring_loop 2 Global ParseFloat market 0)) = Checkpoint (Some False)"
    by (simp del: monitoring_loop.simps symbols_loop.simps)
  from errors_end_only_their_step
    [where v = "PerChat 8" and w = market and pf = ParseFloat and m = 1 and ?t0.0 = 0
       and t = 0 and es = "[]" and ?t1.0 = 0 and err = FailedGetRank and n = 0
       and u = 0 and es' = "[]" and ?u1.0 = 0
       and symbol = "[]" and sample = None and e = FailedGetKline and symbols = "[]"]
    absent
  have panicked: "last (fst (monitoring_loop 1 (PerChat 8) ParseFloat market 0)) = Checkpoint None"
    by (simp del: monitoring_loop.simps symbols_loop.simps)
  from errors stopped returned absent panicked show ?thesis
    by (simp del: monitoring_loop.simps symbols_loop.simps)
qed

subsection \<open>The polling discipline\<close>

lemma final_simps [simp]:
  "final prev [] = prev"
  "final prev (x # xs) = final x xs"
  by (simp_all add: final_def)

lemma final_append [simp]: "final prev (xs @ ys) = final (final prev xs) ys"
  by (simp add: final_def)

lemma final_last: "es \<noteq> [] \<Longrightarrow> final prev es = last es"
  by (simp add: final_def)

lemma disciplined_append:
  "disciplined prev (xs @ ys) \<longleftrightarrow> disciplined prev xs \<and> disciplined (final prev xs) ys"
  by (induction xs arbitrary: prev) auto

lemma disciplined_call:
  "disciplined prev tr \<Longrightarrow> i < length tr \<Longrightarrow> is_call (tr ! i) \<Longrightarrow>
     (if i = 0 then prev else tr ! (i - 1)) = Checkpoint (Some True)"
proof (induction tr arbitrary: prev i)
  case Nil
  then show ?case by simp
next
  case (Cons e es)
  show ?case
  proof (cases i)
    case 0
    with Cons.prems show ?thesis by simp
  next
    case (Suc k)
    with Cons.prems Cons.IH [of e k] show ?thesis
      by (cases k) auto
  qed
qed

lemma disciplined_stop:
  "disciplined prev tr \<Longrightarrow> i < length tr \<Longrightarrow> tr ! i = Checkpoint (Some False) \<Longrightarrow>
     Suc i = length tr"
proof (induction tr arbitrary: prev i)
  case Nil
  then show ?case by simp
next
  case (Cons e es)
  show ?case
  proof (cases i)
    case 0
    with Cons.prems show ?thesis by (cases es) auto
  next
    case (Suc k)
    with Cons.prems Cons.IH [of e k] show ?thesis by auto
  qed
qed

lemma check_symbol_disciplined:
  assumes "v \<noteq> Console" and "prev \<noteq> Checkpoint (Some False)"
    and "check_symbol v pf w symbol t = (es, out, t1)"
  shows "disciplined prev es \<and> es \<noteq> [] \<and> (out \<noteq> Returned \<longrightarrow> last es \<noteq> Checkpoint (Some False))"
  using assms
  by (cases v)
     (auto simp: check_symbol_def checkpoint_def check_volume_def
           split: option.splits if_splits go.splits)

lemma symbols_loop_disciplined:
  assumes "v \<noteq> Console" and "prev \<noteq> Checkpoint (Some False)"
    and "symbols_loop v pf w symbols t = (es, out, t1)"
  shows "disciplined prev es \<and> (out \<noteq> Returned \<longrightarrow> final prev es \<noteq> Checkpoint (Some False))"
  using assms(2,3)
proof (induction symbols arbitrary: prev t es out t1)
  case Nil
  then show ?case by simp
next
  case (Cons symbol symbols)
  obtain es1 out1 u where step: "check_symbol v pf w symbol t = (es1, out1, u)"
    by (cases "check_symbol v pf w symbol t") auto
  note first = check_symbol_disciplined [OF assms(1) Cons.prems(1) step]
  then have fin: "final prev es1 = last es1"
    by (simp add: final_last)
  show ?case
  proof (cases "out1 = Completed")
    case True
    obtain es2 out2 u2 where rest: "symbols_loop v pf w symbols u = (es2, out2, u2)"
      by (cases "symbols_loop v pf w symbols u") auto
    from Cons.prems(2) step True rest have es: "es = es1 @ es2" and out: "out = out2"
      by simp_all
    from first True have "last es1 \<noteq> Checkpoint (Some False)"
      by simp
    from Cons.IH [OF this rest] first show ?thesis
      by (simp add: es out disciplined_append fin)
  next
    case False
    with Cons.prems(2) step have "es = es1 \<and> out = out1"
      by (cases out1) simp_all
    then have "es = es1" and "out = out1"
      by simp_all
    with first show ?thesis
      by (simp add: fin)
  qed
qed

lemma checkpoint_polled:
  assumes "v \<noteq> Console" and "checkpoint v w t = (es, out, t1)"
  shows "\<exists>b. es = [Checkpoint b] \<and> (out = Completed \<longleftrightarrow> b = Some True)
           \<and> (out = Returned \<longleftrightarrow> b = Some False)"
  using assms
  by (cases v) (auto simp: checkpoint_def split: option.splits if_splits)

lemma monitoring_loop_disciplined:
  assumes "v \<noteq> Console" and "prev \<noteq> Checkpoint (Some False)"
    and "monitoring_loop n v pf w t = (es, out)"
  shows "disciplined prev es \<and> (out \<noteq> Returned \<longrightarrow> final prev es \<noteq> Checkpoint (Some False))"
  using assms(2,3)
proof (induction n arbitrary: prev t es out)
  case 0
  then show ?case by simp
next
  case (Suc n)
  obtain es1 out1 u where cp: "checkpoint v w t = (es1, out1, u)"
    by (cases "checkpoint v w t") auto
  from checkpoint_polled [OF assms(1) cp] obtain b where
    b: "es1 = [Checkpoint b]" "out1 = Completed \<longleftrightarrow> b = Some True"
       "out1 = Returned \<longleftrightarrow> b = Some False"
    by auto
  show ?case
  proof (cases "out1 = Completed")
    case go: True
    show ?thesis
    proof (cases "rank_at w u")
      case (Inl err)
      obtain es3 out3 where rest: "monitoring_loop n v pf w (Suc u) = (es3, out3)"
        by (cases "monitoring_loop n v pf w (Suc u)") auto
      from Suc.prems(2) cp go Inl rest
      have es: "es = [Checkpoint b, CallMarketCapRank, LogRankError err, Sleep 300000] @ es3"
        and out: "out = out3"
        by (simp_all add: prepend_def b(1))
      have "Sleep 300000 \<noteq> Checkpoint (Some False)"
        by simp
      from Suc.IH [OF this rest] Suc.prems(1) go b show ?thesis
        unfolding es out by (simp add: disciplined_append)
    next
      case (Inr symbols)
      obtain es2 out2 u2 where inner: "symbols_loop v pf w symbols (Suc u) = (es2, out2, u2)"
        by (cases "symbols_loop v pf w symbols (Suc u)") auto
      have "CallMarketCapRank \<noteq> Checkpoint (Some False)"
        by simp
      note mid = symbols_loop_disciplined [OF assms(1) this inner]
      show ?thesis
      proof (cases "out2 = Completed")
        case True
        obtain es3 out3 where rest: "monitoring_loop n v pf w u2 = (es3, out3)"
          by (cases "monitoring_loop n v pf w u2") auto
        from Suc.prems(2) cp go Inr inner True rest
        have es: "es = [Checkpoint b, CallMarketCapRank] @ es2
                         @ [LogCheckCompleted, Sleep 300000] @ es3"
          and out: "out = out3"
          by (simp_all add: prepend_def b(1))
        have "Sleep 300000 \<noteq> Checkpoint (Some False)"
          by simp
        from Suc.IH [OF this rest] Suc.prems(1) mid True go b show ?thesis
          unfolding es out by (simp add: disciplined_append)
      next
        case False
        with Suc.prems(2) cp go Inr inner
        have "es = [Checkpoint b, CallMarketCapRank] @ es2 \<and> out = out2"
          by (cases out2) (simp_all add: b(1))
        then have es: "es = [Checkpoint b, CallMarketCapRank] @ es2" and out: "out = out2"
          by simp_all
        from Suc.prems(1) mid go b show ?thesis
          unfolding es out by (simp add: disciplined_append)
      qed
    qed
  next
    case False
    with Suc.prems(2) cp have "es = [Checkpoint b] \<and> out = out1"
      by (cases out1) (simp_all add: b(1))
    then have es: "es = [Checkpoint b]" and out: "out = out1"
      by simp_all
    from Suc.prems(1) b False show ?thesis
      unfolding es out by simp
  qed
qed

lemma startMonitoring_disciplined:
  assumes "v \<noteq> Console" and "startMonitoring n v pf w = (tr, out)"
  shows "disciplined LogCheckCompleted tr
         \<and> (out \<noteq> Returned \<longrightarrow> final LogCheckCompleted tr \<noteq> Checkpoint (Some False))
         \<and> tr \<noteq> [] \<and> \<not> is_call (hd tr)"
proof -
  obtain es out' where loop: "monitoring_loop n v pf w 0 = (es, out')"
    by (cases "monitoring_loop n v pf w 0") auto
  with assms(2) have tr: "tr = prelude v @ es" and out: "out = out'"
    by (simp_all add: startMonitoring_def prepend_def)
  have pre: "disciplined LogCheckCompleted (prelude v) \<and> prelude v \<noteq> []
      \<and> last (prelude v) \<noteq> Checkpoint (Some False) \<and> \<not> is_call (hd (prelude v))"
    by (cases v) (simp_all add: prelude_def)
  then have fin: "final LogCheckCompleted (prelude v) = last (prelude v)"
    by (simp add: final_last)
  with pre have "final LogCheckCompleted (prelude v) \<noteq> Checkpoint (Some False)"
    by simp
  from monitoring_loop_disciplined [OF assms(1) this loop] pre show ?thesis
    unfolding tr out by (simp add: disciplined_append fin)
qed

text \<open>
  C9, as the code has it. In the two versions that have a stop flag, every call of
  \<open>getBinanceVolume\<close> comes right after a poll of the flag that read true, and a poll
  that read false is the last event of the loop, which then has returned: no call of
  \<open>getBinanceVolume\<close> and no alert comes after it. This holds for every world, that is
  however the flag changes while the loop runs; a loop learns of a stop by its polls
  only.
\<close>

theorem stop_flag_is_polled:
  assumes "v \<noteq> Console" and "startMonitoring n v pf w = (tr, out)"
  shows "(\<forall>i. i < length tr \<and> is_call (tr ! i) \<longrightarrow>
            0 < i \<and> tr ! (i - 1) = Checkpoint (Some True))
         \<and> (\<forall>i. i < length tr \<and> tr ! i = Checkpoint (Some False) \<longrightarrow>
              Suc i = length tr \<and> out = Returned)
         \<and> (\<forall>i j. i < j \<and> j < length tr \<and> tr ! i = Checkpoint (Some False) \<longrightarrow>
              \<not> is_call (tr ! j) \<and> \<not> is_alert (tr ! j))"
proof -
  note d = startMonitoring_disciplined [OF assms]
  have calls: "0 < i \<and> tr ! (i - 1) = Checkpoint (Some True)"
    if "i < length tr" and "is_call (tr ! i)" for i
  proof -
    from d that have "i \<noteq> 0"
      by (cases i) (auto simp: hd_conv_nth)
    with disciplined_call [of LogCheckCompleted tr i] d that show ?thesis
      by simp
  qed
  have stops: "Suc i = length tr \<and> out = Returned"
    if "i < length tr" and "tr ! i = Checkpoint (Some False)" for i
  proof -
    from disciplined_stop [of LogCheckCompleted tr i] d that have last: "Suc i = length tr"
      by simp
    from that have "tr \<noteq> []"
      by auto
    then have "final LogCheckCompleted tr = tr ! (length tr - 1)"
      by (simp add: final_last last_conv_nth)
    moreover from last have "length tr - 1 = i"
      by simp
    ultimately have "final LogCheckCompleted tr = Checkpoint (Some False)"
      using that by simp
    with d last show ?thesis
      by auto
  qed
  have after: "\<not> is_call (tr ! j) \<and> \<not> is_alert (tr ! j)"
    if "i < j" and "j < length tr" and "tr ! i = Checkpoint (Some False)" for i j
  proof -
    from that have "i < length tr"
      by simp
    from stops [OF this that(3)] that show ?thesis
      by simp
  qed
  from calls stops after show ?thesis
    by blast
qed

lemma market_run:
  "startMonitoring 2 Global ParseFloat market =
     ([SetMonitoring True,
       SendText ''Volume monitoring started! You will receive alerts when volume increases more than 5x.'',
       Checkpoint (Some True), CallMarketCapRank, LogRankError FailedGetRank, Sleep 300000,
       Checkpoint (Some True), CallMarketCapRank,
       Checkpoint (Some True), CallBinanceVolume ''ETHUSDT'',
       Alert Global ''ETHUSDT'' \<lparr>PrevVolume = Num 100, CurrVolume = Num 600, Ratio = Num 6\<rparr>,
       Sleep 100,
       Checkpoint (Some True), CallBinanceVolume ''USDTUSDT'', Sleep 100,
       Checkpoint (Some True), CallBinanceVolume ''BTCUSDT'',
       LogVolumeError ''BTCUSDT'' InsufficientKlineData,
       Checkpoint (Some False)], Returned)"
  by (simp add: startMonitoring_def prelude_def prepend_def numeral_2_eq_2 checkpoint_def
      check_symbol_def check_volume_def market_simps getBinanceVolume_eth getBinanceVolume_400
      getBinanceVolume_btc getBinanceVolume_GetError fgt_def is_nan_def)

theorem stop_flag_is_polled_witness:
  "startMonitoring 2 Global ParseFloat market =
     ([SetMonitoring True,
       SendText ''Volume monitoring started! You will receive alerts when volume increases more than 5x.'',
       Checkpoint (Some True), CallMarketCapRank, LogRankError FailedGetRank, Sleep 300000,
       Checkpoint (Some True), CallMarketCapRank,
       Checkpoint (Some True), CallBinanceVolume ''ETHUSDT'',
       Alert Global ''ETHUSDT'' \<lparr>PrevVolume = Num 100, CurrVolume = Num 600, Ratio = Num 6\<rparr>,
       Sleep 100,
       Checkpoint (Some True), CallBinanceVolume ''USDTUSDT'', Sleep 100,
       Checkpoint (Some True), CallBinanceVolume ''BTCUSDT'',
       LogVolumeError ''BTCUSDT'' InsufficientKlineData,
       Checkpoint (Some False)], Returned)
   \<and> is_call (fst (startMonitoring 2 Global ParseFloat market) ! 9)
   \<and> fst (startMonitoring 2 Global ParseFloat market) ! (9 - 1) = Checkpoint (Some True)
   \<and> fst (startMonitoring 2 Global ParseFloat market) ! 18 = Checkpoint (Some False)
   \<and> Suc 18 = length (fst (startMonitoring 2 Global ParseFloat market))
   \<and> snd (startMonitoring 2 Global ParseFloat market) = Returned"
proof -
  have v: "Global \<noteq> Console"
    by simp
  have run: "startMonitoring 2 Global ParseFloat market =
      (fst (startMonitoring 2 Global ParseFloat market),
       snd (startMonitoring 2 Global ParseFloat market))"
    by simp
  have call: "9 < length (fst (startMonitoring 2 Global ParseFloat market))
      \<and> is_call (fst (startMonitoring 2 Global ParseFloat market) ! 9)"
    by (simp add: market_run)
  have stop: "18 < length (fst (startMonitoring 2 Global ParseFloat market))
      \<and> fst (startMonitoring 2 Global ParseFloat market) ! 18 = Checkpoint (Some False)"
    by (simp add: market_run)
  from stop_flag_is_polled [OF v run] call stop market_run show ?thesis
    by blast
qed

text \<open>
  The claim C9 as stated fails when the flag is cleared and set again between two polls.
  In \<^verbatim>\<open>main.go\<close> the \<^verbatim>\<open>stop\<close> command clears the flag, and a \<^verbatim>\<open>monitor\<close> command
  that follows starts a second loop, which sets the flag first. The first loop, which
  was fetching the ranking meanwhile, reads true at its next poll and goes on: it calls
  \<open>getBinanceVolume\<close> and alerts although the flag had been cleared.
\<close>

theorem stop_then_restart_counterexample:
  "handle_update_global \<lparr>monitoring = True, chatID = 7\<rparr>
     (Some \<lparr>chat = 7, is_command = True, command = ''stop''\<rparr>) =
     (\<lparr>monitoring = False, chatID = 7\<rparr>, [Send 7 ''Volume monitoring stopped!''])
   \<and> handle_update_global \<lparr>monitoring = False, chatID = 7\<rparr>
       (Some \<lparr>chat = 7, is_command = True, command = ''monitor''\<rparr>) =
       (\<lparr>monitoring = False, chatID = 7\<rparr>, [Go Global])
   \<and> hd (prelude Global) = SetMonitoring True
   \<and> \<not> monitoring_at restarted 3
   \<and> monitoring_at restarted 4
   \<and> monitoring_loop 1 Global ParseFloat restarted 2 =
       ([Checkpoint (Some True), CallMarketCapRank,
         Checkpoint (Some True), CallBinanceVolume ''ETHUSDT'',
         Alert Global ''ETHUSDT'' \<lparr>PrevVolume = Num 100, CurrVolume = Num 600, Ratio = Num 6\<rparr>,
         Sleep 100,
         Checkpoint (Some True), CallBinanceVolume ''USDTUSDT'', Sleep 100,
         Checkpoint (Some True), CallBinanceVolume ''BTCUSDT'',
         LogVolumeError ''BTCUSDT'' InsufficientKlineData,
         Checkpoint (Some False)], Returned)"
proof -
  have fields:
    "monitoring_at restarted t = (t \<noteq> 3 \<and> t < 9)"
    "rank_at restarted t = rank_at market t"
    "kline_at restarted t symbol = kline_at market t symbol" for t symbol
    by (simp_all add: restarted_def)
  have run: "monitoring_loop 1 Global ParseFloat restarted 2 =
       ([Checkpoint (Some True), CallMarketCapRank,
         Checkpoint (Some True), CallBinanceVolume ''ETHUSDT'',
         Alert Global ''ETHUSDT'' \<lparr>PrevVolume = Num 100, CurrVolume = Num 600, Ratio = Num 6\<rparr>,
         Sleep 100,
         Checkpoint (Some True), CallBinanceVolume ''USDTUSDT'', Sleep 100,
         Checkpoint (Some True), CallBinanceVolume ''BTCUSDT'',
         LogVolumeError ''BTCUSDT'' InsufficientKlineData,
         Checkpoint (Some False)], Returned)"
    by (simp add: prepend_def checkpoint_def check_symbol_def check_volume_def fields
        market_simps getBinanceVolume_eth getBinanceVolume_400 getBinanceVolume_btc
        getBinanceVolume_GetError fgt_def is_nan_def)
  from run show ?thesis
    by (simp add: fields handle_update_global_def prelude_def del: monitoring_loop.simps)
qed

section \<open>Properties of the session store and the command handler\<close>

subsection \<open>Keys survive the file\<close>

lemma digit_char_props:
  assumes "d < 10"
  shows "is_digit (digit_char d) \<and> digit_val (digit_char d) = d"
proof -
  from assms have "d \<in> {0, 1, 2, 3, 4, 5, 6, 7, 8, 9}"
    by auto
  then show ?thesis
    by (auto simp: digit_char_def is_digit_def digit_val_def)
qed

lemma digits_val_snoc: "digits_val (ds @ [c]) = 10 * digits_val ds + digit_val c"
  by (simp add: digits_val_def)

lemma digits_props:
  "list_all is_digit (digits n) \<and> digits n \<noteq> [] \<and> digits_val (digits n) = n"
proof (induction n rule: digits.induct)
  case (1 n)
  show ?case
  proof (cases "n < 10")
    case True
    then have "digits n = [digit_char n]"
      by (simp add: digits.simps)
    with digit_char_props [OF True] show ?thesis
      by (simp add: digits_val_def)
  next
    case False
    then have unfold: "digits n = digits (n div 10) @ [digit_char (n mod 10)]"
      by (subst digits.simps) simp
    have "n mod 10 < 10"
      by simp
    from digit_char_props [OF this] "1.IH" [OF False] show ?thesis
      by (simp add: unfold digits_val_snoc)
  qed
qed

lemma split_sign_digits:
  assumes "ds \<noteq> []" and "list_all is_digit ds"
  shows "split_sign ds = (False, ds)"
  using assms by (cases ds) (auto simp: split_sign_def is_digit_def)

lemma ParseInt_FormatInt: "ParseInt (FormatInt (sint (k :: int64))) = Some k"
proof -
  have lower: "- (2 ^ 63) \<le> sint k" and upper: "sint k < 2 ^ 63"
    using sint_ge [of k] sint_lt [of k] by simp_all
  show ?thesis
  proof (cases "sint k < 0")
    case True
    let ?ds = "digits (nat (- sint k))"
    from True have "FormatInt (sint k) = CHR ''-'' # ?ds"
      by (simp add: FormatInt_def)
    moreover have "split_sign (CHR ''-'' # ?ds) = (True, ?ds)"
      by (simp add: split_sign_def)
    moreover from True have "- int (digits_val ?ds) = sint k"
      by (simp add: digits_props)
    ultimately show ?thesis
      using lower upper digits_props [of "nat (- sint k)"] by (simp add: ParseInt_def)
  next
    case False
    let ?ds = "digits (nat (sint k))"
    from False have "FormatInt (sint k) = ?ds"
      by (simp add: FormatInt_def)
    moreover have "split_sign ?ds = (False, ?ds)"
      using digits_props [of "nat (sint k)"] by (simp add: split_sign_digits)
    moreover from False have "int (digits_val ?ds) = sint k"
      by (simp add: digits_props)
    ultimately show ?thesis
      using lower upper digits_props [of "nat (sint k)"] by (simp add: ParseInt_def)
  qed
qed

lemma unmarshal_marshal_entry: "unmarshal_entry (marshal_entry e) = Some e"
  by (simp add: marshal_entry_def ParseInt_FormatInt)

lemma sequence_opt_map:
  "(\<And>x. x \<in> set xs \<Longrightarrow> f x = Some (g x)) \<Longrightarrow> sequence_opt (map f xs) = Some (map g xs)"
  by (induction xs) simp_all

lemma Unmarshal_Marshal:
  "\<exists>entries. Unmarshal (Marshal m) = Some entries \<and> set entries = set m"
proof -
  let ?ys = "sort_key fst (map marshal_entry m)"
  let ?g = "\<lambda>y. the (unmarshal_entry y)"
  have each: "unmarshal_entry y = Some (?g y)" if "y \<in> set ?ys" for y
    using that by (auto simp: unmarshal_marshal_entry)
  have "sequence_opt (map unmarshal_entry ?ys) = Some (map ?g ?ys)"
    by (rule sequence_opt_map) (rule each)
  then have "Unmarshal (Marshal m) = Some (map ?g ?ys)"
    by (simp add: Marshal_def)
  moreover have "set (map ?g ?ys) = set m"
    by (force simp: unmarshal_marshal_entry image_iff)
  ultimately show ?thesis
    by blast
qed

subsection \<open>Association lists\<close>

lemma map_of_same_set:
  assumes "distinct (map fst xs)" and "set ys = set xs"
  shows "map_of ys = map_of xs"
proof
  fix k
  show "map_of ys k = map_of xs k"
  proof (cases "map_of ys k")
    case None
    then have "k \<notin> fst ` set xs"
      by (simp add: map_of_eq_None_iff assms(2))
    then have "map_of xs k = None"
      by (simp add: map_of_eq_None_iff)
    with None show ?thesis
      by simp
  next
    case (Some v)
    then have "(k, v) \<in> set xs"
      using assms(2) by (auto dest: map_of_SomeD)
    with assms(1) Some show ?thesis
      by simp
  qed
qed

lemma map_of_store_all: "map_of (store_all ps m) = map_of m ++ map_of (rev ps)"
proof (induction ps arbitrary: m)
  case Nil
  then show ?case by (simp add: store_all_def)
next
  case (Cons p ps)
  have "store_all (p # ps) m = store_all ps (AList.update (fst p) (snd p) m)"
    by (simp add: store_all_def)
  then have "map_of (store_all (p # ps) m) =
      map_of (AList.update (fst p) (snd p) m) ++ map_of (rev ps)"
    by (simp add: Cons.IH)
  also have "\<dots> = map_of m ++ map_of (rev (p # ps))"
    by (rule ext) (simp add: map_add_def update_conv split: option.splits)
  finally show ?case .
qed

lemma loaded_entries:
  assumes "Unmarshal data = Some entries" and "set entries = set m" and "distinct (map fst m)"
  shows "map_of (AList.clearjunk (rev entries)) = map_of m"
    and "{c. (c, True) \<in> set (AList.clearjunk (rev entries))} = {c. map_of m c = Some True}"
proof -
  have "set (rev entries) = set m"
    by (simp add: assms(2))
  from map_of_same_set [OF assms(3) this]
  show eq: "map_of (AList.clearjunk (rev entries)) = map_of m"
    by (simp add: map_of_clearjunk)
  have "(c, True) \<in> set (AList.clearjunk (rev entries)) \<longleftrightarrow>
          map_of (AList.clearjunk (rev entries)) c = Some True" for c
    by simp
  then have "(c, True) \<in> set (AList.clearjunk (rev entries)) \<longleftrightarrow> map_of m c = Some True" for c
    by (simp add: eq)
  then show "{c. (c, True) \<in> set (AList.clearjunk (rev entries))} = {c. map_of m c = Some True}"
    by simp
qed

subsection \<open>Save and load\<close>

text \<open>
  C6. Take any store, save it with a write that succeeds, and load the file into the
  empty store of a fresh process. The loaded store maps every chat id as the saved one
  did, so the enabled chats are the same, and the loops started are exactly one for
  each enabled chat. Loading when the file is absent changes nothing, starts no loop
  and logs nothing.
\<close>

theorem save_then_load_round_trip:
  "(case saveMonitoringStatus False st of
      (saved, written) \<Rightarrow>
        (case loadMonitoringStatus \<lparr>monitoringStatus = [], statusFile = statusFile saved\<rparr> of
           (loaded, started) \<Rightarrow>
             map_of (monitoringStatus loaded) = map_of (monitoringStatus st)
             \<and> {c. map_of (monitoringStatus loaded) c = Some True} =
                 {c. map_of (monitoringStatus st) c = Some True}
             \<and> set started =
                 (\<lambda>c. Go (PerChat c)) ` {c. map_of (monitoringStatus st) c = Some True}
             \<and> distinct started))
   \<and> loadMonitoringStatus \<lparr>monitoringStatus = [], statusFile = Absent\<rparr> =
       (\<lparr>monitoringStatus = [], statusFile = Absent\<rparr>, [])"
proof -
  let ?m = "AList.clearjunk (monitoringStatus st)"
  obtain entries where dec: "Unmarshal (Marshal ?m) = Some entries" and same: "set entries = set ?m"
    using Unmarshal_Marshal [of ?m] by blast
  let ?statusMap = "AList.clearjunk (rev entries)"
  let ?started = "map (\<lambda>e. Go (PerChat (fst e))) (filter snd ?statusMap)"
  have keys: "distinct (map fst ?m)"
    by simp
  note loaded = loaded_entries [OF dec same keys]
  have saved: "saveMonitoringStatus False st = (st\<lparr>statusFile := Content (Marshal ?m)\<rparr>,
      [WriteFile (Marshal ?m)])"
    by (simp add: saveMonitoringStatus_def Let_def)
  have load: "loadMonitoringStatus \<lparr>monitoringStatus = [], statusFile = Content (Marshal ?m)\<rparr> =
      (\<lparr>monitoringStatus = store_all ?statusMap [], statusFile = Content (Marshal ?m)\<rparr>,
       ?started)"
    by (simp add: loadMonitoringStatus_def dec Let_def)
  have "set (rev ?statusMap) = set ?statusMap"
    by simp
  from map_of_same_set [OF _ this] have "map_of (rev ?statusMap) = map_of ?statusMap"
    by simp
  then have rev: "map_of (rev ?statusMap) = map_of ?statusMap" .
  have "map_of (store_all ?statusMap []) = map_of (rev ?statusMap)"
    by (simp add: map_of_store_all)
  also note rev
  also note loaded(1)
  also have "map_of ?m = map_of (monitoringStatus st)"
    by (rule map_of_clearjunk)
  finally have store: "map_of (store_all ?statusMap []) = map_of (monitoringStatus st)" .
  have "set ?started = (\<lambda>c. Go (PerChat c)) ` {c. (c, True) \<in> set ?statusMap}"
    by force
  also note loaded(2)
  finally have started: "set ?started =
      (\<lambda>c. Go (PerChat c)) ` {c. map_of (monitoringStatus st) c = Some True}"
    by (simp only: map_of_clearjunk)
  have "distinct (map fst (filter snd ?statusMap))"
    by (simp add: distinct_map_filter)
  then have once: "distinct ?started"
    by (simp add: distinct_map inj_on_def flip: map_map [of "\<lambda>c. Go (PerChat c)" fst, unfolded comp_def])
  have absent: "loadMonitoringStatus \<lparr>monitoringStatus = [], statusFile = Absent\<rparr> =
      (\<lparr>monitoringStatus = [], statusFile = Absent\<rparr>, [])"
    by (simp add: loadMonitoringStatus_def)
  show ?thesis
    using store started once absent by (simp add: saved load)
qed

theorem save_then_load_round_trip_witness:
  "saveMonitoringStatus False
     \<lparr>monitoringStatus = [(7, True), (- 42, False), (123456789, True)], statusFile = Absent\<rparr> =
     (\<lparr>monitoringStatus = [(7, True), (- 42, False), (123456789, True)],
       statusFile = Content (JObject [(''-42'', JBool False), (''123456789'', JBool True),
                                      (''7'', JBool True)])\<rparr>,
      [WriteFile (JObject [(''-42'', JBool False), (''123456789'', JBool True),
                           (''7'', JBool True)])])
   \<and> loadMonitoringStatus
       \<lparr>monitoringStatus = [],
        statusFile = Content (JObject [(''-42'', JBool False), (''123456789'', JBool True),
                                       (''7'', JBool True)])\<rparr> =
       (\<lparr>monitoringStatus = [(7, True), (123456789, True), (- 42, False)],
         statusFile = Content (JObject [(''-42'', JBool False), (''123456789'', JBool True),
                                        (''7'', JBool True)])\<rparr>,
        [Go (PerChat 7), Go (PerChat 123456789)])
   \<and> map_of [(7 :: int64, True), (123456789, True), (- 42, False)] =
       map_of [(7, True), (- 42, False), (123456789, True)]"
proof -
  let ?st = "\<lparr>monitoringStatus = [(7 :: int64, True), (- 42, False), (123456789, True)],
              statusFile = Absent\<rparr>"
  have marshal: "Marshal [(7, True), (- 42, False), (123456789, True)] =
      JObject [(''-42'', JBool False), (''123456789'', JBool True), (''7'', JBool True)]"
    by (simp add: Marshal_def marshal_entry_def FormatInt_def digits.simps digit_char_def
        less_char_def less_eq_char_def)
  have saved: "saveMonitoringStatus False ?st =
      (?st\<lparr>statusFile := Content (JObject [(''-42'', JBool False), (''123456789'', JBool True),
                                            (''7'', JBool True)])\<rparr>,
       [WriteFile (JObject [(''-42'', JBool False), (''123456789'', JBool True),
                            (''7'', JBool True)])])"
    by (simp add: saveMonitoringStatus_def marshal Let_def)
  have unmarshal: "Unmarshal (JObject [(''-42'', JBool False), (''123456789'', JBool True),
        (''7'', JBool True)]) = Some [(- 42, False), (123456789, True), (7, True)]"
    by (simp add: ParseInt_def split_sign_def is_digit_def digits_val_def digit_val_def)
  have load: "loadMonitoringStatus
       \<lparr>monitoringStatus = [],
        statusFile = Content (JObject [(''-42'', JBool False), (''123456789'', JBool True),
                                       (''7'', JBool True)])\<rparr> =
       (\<lparr>monitoringStatus = [(7, True), (123456789, True), (- 42, False)],
         statusFile = Content (JObject [(''-42'', JBool False), (''123456789'', JBool True),
                                        (''7'', JBool True)])\<rparr>,
        [Go (PerChat 7), Go (PerChat 123456789)])"
    by (simp add: loadMonitoringStatus_def unmarshal store_all_def Let_def del: Unmarshal.simps)
  from save_then_load_round_trip [of ?st] show ?thesis
    by (simp add: saved load)
qed

subsection \<open>Commands that change nothing\<close>

text \<open>
  C7. A \<^verbatim>\<open>monitor\<close> command for a chat whose flag is set only sends the reply that
  monitoring is already running: no loop is started and the state stays as it is. A
  \<^verbatim>\<open>stop\<close> command for a chat whose flag is not set (false, or absent from the map)
  only sends the reply that monitoring is not running: nothing is written and the
  state stays as it is. The same holds for the single flag of \<^verbatim>\<open>main.go\<close>, where
  a message changes nothing but the global chat id.
\<close>

theorem repeated_commands_only_reply:
  assumes "is_command m"
  shows "(command m = ''monitor'' \<and> map_of (monitoringStatus st) (chat m) = Some True \<longrightarrow>
            handle_update write_fails st (Some m) =
              (st, [Send (chat m) ''Monitoring is already running!'']))
         \<and> (command m = ''stop'' \<and> map_of (monitoringStatus st) (chat m) \<noteq> Some True \<longrightarrow>
              handle_update write_fails st (Some m) =
                (st, [Send (chat m) ''Monitoring is not running!'']))
         \<and> (command m = ''monitor'' \<and> monitoring g \<longrightarrow>
              handle_update_global g (Some m) =
                (g\<lparr>chatID := chat m\<rparr>, [Send (chat m) ''Monitoring is already running!'']))
         \<and> (command m = ''stop'' \<and> \<not> monitoring g \<longrightarrow>
              handle_update_global g (Some m) =
                (g\<lparr>chatID := chat m\<rparr>, [Send (chat m) ''Monitoring is not running!'']))"
  using assms by (simp add: handle_update_def handle_update_global_def Let_def)

theorem repeated_commands_only_reply_witness:
  "handle_update False
     \<lparr>monitoringStatus = [(7, True), (- 42, False)], statusFile = Absent\<rparr>
     (Some \<lparr>chat = 7, is_command = True, command = ''monitor''\<rparr>) =
     (\<lparr>monitoringStatus = [(7, True), (- 42, False)], statusFile = Absent\<rparr>,
      [Send 7 ''Monitoring is already running!''])
   \<and> handle_update False
       \<lparr>monitoringStatus = [(7, True), (- 42, False)], statusFile = Absent\<rparr>
       (Some \<lparr>chat = 99, is_command = True, command = ''stop''\<rparr>) =
       (\<lparr>monitoringStatus = [(7, True), (- 42, False)], statusFile = Absent\<rparr>,
        [Send 99 ''Monitoring is not running!''])
   \<and> handle_update_global \<lparr>monitoring = True, chatID = 1\<rparr>
       (Some \<lparr>chat = 7, is_command = True, command = ''monitor''\<rparr>) =
       (\<lparr>monitoring = True, chatID = 7\<rparr>, [Send 7 ''Monitoring is already running!''])
   \<and> handle_update_global \<lparr>monitoring = False, chatID = 1\<rparr>
       (Some \<lparr>chat = 99, is_command = True, command = ''stop''\<rparr>) =
       (\<lparr>monitoring = False, chatID = 99\<rparr>, [Send 99 ''Monitoring is not running!''])"
proof -
  let ?st = "\<lparr>monitoringStatus = [(7 :: int64, True), (- 42, False)], statusFile = Absent\<rparr>"
  have a: "is_command \<lparr>chat = 7, is_command = True, command = ''monitor''\<rparr>"
    by simp
  have b: "is_command \<lparr>chat = 99, is_command = True, command = ''stop''\<rparr>"
    by simp
  from repeated_commands_only_reply [OF a, of ?st False "\<lparr>monitoring = True, chatID = 1\<rparr>"]
    repeated_commands_only_reply [OF b, of ?st False "\<lparr>monitoring = False, chatID = 1\<rparr>"]
  show ?thesis
    by simp
qed

end
